theory Spec2Isabelle
  imports Complex_Main
begin

section \<open>Python values, errors and containers\<close>

text \<open>
  The simulation class \<open>SimPETS\<close> of \<open>pets/sim.py\<close> drives an external solver framework.
  Floating-point numbers are modelled as \<open>real\<close> (exact arithmetic), Python integers as
  \<open>int\<close>. Every exception the Python code can raise is a value of \<open>error\<close>; a computation
  that may raise returns \<open>error + 'a\<close> with \<open>Inl\<close> for the exception.
\<close>

datatype error =
    Exception string
  | KeyError
  | IndexError
  | TypeError
  | ValueError
  | AttributeError
  | IOError
  | ZeroDivisionError
  | SolverError

text \<open>An entry of a numeric table is an integer or a float.\<close>

datatype pynum = PyInt int | PyFloat real

definition bindE :: "error + 'a \<Rightarrow> ('a \<Rightarrow> error + 'b) \<Rightarrow> error + 'b" where
  "bindE r f = (case r of Inl e \<Rightarrow> Inl e | Inr x \<Rightarrow> f x)"

text \<open>\<open>d[k]\<close> on a dictionary: \<open>KeyError\<close> when the key is absent.\<close>

definition getitem :: "('k \<rightharpoonup> 'v) \<Rightarrow> 'k \<Rightarrow> error + 'v" where
  "getitem d k = (case d k of None \<Rightarrow> Inl KeyError | Some v \<Rightarrow> Inr v)"

text \<open>\<open>a[i, j]\<close> on a two-dimensional array with non-negative indices.\<close>

definition idx2 :: "'a list list \<Rightarrow> nat \<Rightarrow> nat \<Rightarrow> error + 'a" where
  "idx2 a i j =
     (if i < length a \<and> j < length (a ! i) then Inr (a ! i ! j) else Inl IndexError)"

text \<open>\<open>a[0, -1]\<close>: the last column of the first row.\<close>

definition idx_first_last :: "'a list list \<Rightarrow> error + 'a" where
  "idx_first_last a =
     (case a of [] \<Rightarrow> Inl IndexError
      | r # _ \<Rightarrow> (if r = [] then Inl IndexError else Inr (last r)))"

text \<open>\<open>a[-1, i]\<close>: column \<open>i\<close> of the last row.\<close>

definition idx_last :: "'a list list \<Rightarrow> nat \<Rightarrow> error + 'a" where
  "idx_last a i =
     (if a \<noteq> [] \<and> i < length (last a) then Inr (last a ! i) else Inl IndexError)"

text \<open>\<open>range(n)\<close> for a Python integer: empty when \<open>n \<le> 0\<close>.\<close>

definition py_range :: "int \<Rightarrow> nat list" where
  "py_range n = [0..<nat n]"

text \<open>\<open>range(x)\<close> for a table entry: a float is rejected with \<open>TypeError\<close>.\<close>

definition range_num :: "pynum \<Rightarrow> error + nat list" where
  "range_num x = (case x of PyInt n \<Rightarrow> Inr (py_range n) | PyFloat _ \<Rightarrow> Inl TypeError)"

text \<open>\<open>int(x)\<close>: the identity on an integer, truncation towards zero on a float.\<close>

definition py_trunc :: "real \<Rightarrow> int" where
  "py_trunc x = (if 0 \<le> x then \<lfloor>x\<rfloor> else \<lceil>x\<rceil>)"

definition py_int :: "pynum \<Rightarrow> int" where
  "py_int x = (case x of PyInt n \<Rightarrow> n | PyFloat r \<Rightarrow> py_trunc r)"

text \<open>Decimal digits of a natural number, as \<open>str.format\<close> prints an index.\<close>

definition digit_char :: "nat \<Rightarrow> char" where
  "digit_char d = ''0123456789'' ! d"

function str_nat :: "nat \<Rightarrow> string" where
  "str_nat n = (if n < 10 then [digit_char n] else str_nat (n div 10) @ [digit_char (n mod 10)])"
  by pat_completeness auto
termination
  by (relation "measure (\<lambda>n. n)") auto

declare str_nat.simps [simp del]

text \<open>A \<open>for\<close> loop over a list whose body may raise: the first exception ends the loop.\<close>

fun forM :: "'a list \<Rightarrow> ('a \<Rightarrow> 's \<Rightarrow> error + 's) \<Rightarrow> 's \<Rightarrow> error + 's" where
  "forM [] body s = Inr s"
| "forM (x # xs) body s = bindE (body x s) (forM xs body)"

section \<open>Configuration, checkpoint and the model's variables\<close>

text \<open>
  The system-level dictionary \<open>ndD_s\<close>. Its top-level keys are record fields; the tables
  below them (keyed by the region label \<open>''a''\<close>, \<open>''c''\<close> or \<open>''s''\<close>) are dictionaries, and
  reading an absent label raises \<open>KeyError\<close>. The keys \<open>"1varTypes"\<close> and \<open>"2varTypes"\<close> are
  the fields \<open>oneVarTypes\<close> and \<open>twoVarTypes\<close>.
\<close>

record config_s =
  Nvol :: "string \<rightharpoonup> int"
  Npart :: "string \<rightharpoonup> int"
  trodes :: "string list"
  psd_num :: "string \<rightharpoonup> pynum list list"
  cs0 :: "string \<rightharpoonup> real"
  c0 :: real
  phi_cathode :: real
  prevDir :: string
  oneVarTypes :: "string list"
  twoVarTypes :: "string list"
  currPrev :: real
  phiPrev :: real

text \<open>
  The electrode-level dictionary: \<open>ndD_e[l]["indvPart"][i, j]["type"]\<close> is the solid-type
  tag of particle \<open>(i, j)\<close> of region \<open>l\<close>.
\<close>

type_synonym config_e = "string \<rightharpoonup> string list list"

text \<open>The checkpoint: the arrays of \<open>output_data.mat\<close> by key, each two-dimensional.\<close>

type_synonym checkpoint = "string \<rightharpoonup> real list list"

datatype pfield = F_c | F_cbar | F_c1 | F_c2 | F_c1bar | F_c2bar

datatype var =
    Ffrac string
  | R_Vp string
  | Phi_bulk string
  | C_lyte string
  | Phi_lyte string
  | Phi_applied
  | DummyVar
  | Part string nat nat pfield

datatype dmn = DmnCell string | DmnPart string | PartDmn string nat nat

text \<open>A call made on the model object \<open>self.m\<close> of the external framework.\<close>

datatype call =
    CreateArray dmn int
  | SetInitialGuess var real
  | SetInitialGuessAt var nat real
  | SetInitialCondition var nat real
  | AssignValue var real

text \<open>
  The simulation object: the two dictionaries, the time scale, and the checkpoint, an
  attribute that exists only when the constructor loaded one.
\<close>

record SimPETS =
  ndD_s :: config_s
  ndD_e :: config_e
  tScale :: "real option"
  dataPrev :: "checkpoint option"

text \<open>
  What the methods change outside the object: the calls received by the model, oldest
  first, and the stream of numbers that \<open>np.random.rand\<close> will draw next.
\<close>

record world =
  calls :: "call list"
  rand_src :: "nat \<Rightarrow> real"

definition emit :: "call \<Rightarrow> world \<Rightarrow> world" where
  "emit c w = w\<lparr>calls := calls w @ [c]\<rparr>"

text \<open>
  \<open>np.random.rand(n)\<close>: \<open>n\<close> draws from the stream; \<open>ValueError\<close> for a negative
  dimension, \<open>TypeError\<close> for a float.
\<close>

definition np_random_rand :: "pynum \<Rightarrow> world \<Rightarrow> error + (real list \<times> world)" where
  "np_random_rand x w =
     (case x of
        PyFloat _ \<Rightarrow> Inl TypeError
      | PyInt n \<Rightarrow>
          (if n < 0 then Inl ValueError
           else Inr (map (rand_src w) [0..<nat n],
                     w\<lparr>rand_src := (\<lambda>k. rand_src w (k + nat n))\<rparr>)))"

text \<open>\<open>np.mean\<close> (of an empty array it is \<open>nan\<close>, which is then subtracted from no element).\<close>

definition np_mean :: "real list \<Rightarrow> real" where
  "np_mean xs = sum_list xs / real (length xs)"

definition epsrnd :: real where
  "epsrnd = 0.0001"

text \<open>\<open>rnd = epsrnd*(u - 0.5); rnd -= np.mean(rnd)\<close>\<close>

definition scaled :: "real list \<Rightarrow> real list" where
  "scaled us = map (\<lambda>u. epsrnd * (u - 0.5)) us"

definition demeaned :: "real list \<Rightarrow> real list" where
  "demeaned rnd = map (\<lambda>r. r - np_mean rnd) rnd"

section \<open>The constructor\<close>

text \<open>
  \<open>SimPETS.__init__\<close>. The file system is a parameter: \<open>loadmat dir\<close> is the content of
  \<open>output_data.mat\<close> under the directory \<open>dir\<close>, if that file exists. The dictionary
  \<open>ndD_s\<close> is updated in place, so the object sees the updated \<open>currPrev\<close> and \<open>phiPrev\<close>.
\<close>

definition SimPETS_init ::
  "(string \<rightharpoonup> checkpoint) \<Rightarrow> config_s option \<Rightarrow> config_e option \<Rightarrow> real option
     \<Rightarrow> error + SimPETS" where
  "SimPETS_init loadmat ndD_s_arg ndD_e_arg tScale_arg =
     (case (ndD_s_arg, ndD_e_arg) of
        (Some s, Some e) \<Rightarrow>
          (let s0 = s\<lparr>currPrev := 0, phiPrev := 0\<rparr> in
           if prevDir s0 \<noteq> ''false'' then
             (case loadmat (prevDir s0) of
                None \<Rightarrow> Inl IOError
              | Some d \<Rightarrow>
                  bindE (bindE (getitem d ''current'') idx_first_last) (\<lambda>cur.
                  bindE (bindE (getitem d ''phi_applied'') idx_first_last) (\<lambda>phi.
                    Inr \<lparr>ndD_s = s0\<lparr>currPrev := cur, phiPrev := phi\<rparr>, ndD_e = e,
                         tScale = tScale_arg, dataPrev = Some d\<rparr>)))
           else Inr \<lparr>ndD_s = s0, ndD_e = e, tScale = tScale_arg, dataPrev = None\<rparr>)
      | _ \<Rightarrow> Inl (Exception ''Need input parameter dictionaries''))"

section \<open>Per-particle lookups\<close>

text \<open>\<open>ndD_s["psd_num"][l][i,j]\<close>, the discretization count of a particle.\<close>

definition psd_num_at :: "SimPETS \<Rightarrow> string \<Rightarrow> nat \<Rightarrow> nat \<Rightarrow> error + pynum" where
  "psd_num_at sim l i j = bindE (getitem (psd_num (ndD_s sim)) l) (\<lambda>tab. idx2 tab i j)"

text \<open>\<open>self.ndD_e[l]["indvPart"][i,j]["type"]\<close>, the solid-type tag of a particle.\<close>

definition solidType_at :: "SimPETS \<Rightarrow> string \<Rightarrow> nat \<Rightarrow> nat \<Rightarrow> error + string" where
  "solidType_at sim l i j = bindE (getitem (ndD_e sim) l) (\<lambda>tags. idx2 tags i j)"

section \<open>Domain allocation\<close>

text \<open>\<open>self.m.particles[l][i, j].Dmn.CreateArray(int(ndD["psd_num"][l][i,j]))\<close>\<close>

definition domains_particle :: "SimPETS \<Rightarrow> string \<Rightarrow> nat \<Rightarrow> nat \<Rightarrow> world \<Rightarrow> error + world" where
  "domains_particle sim l i j w =
     bindE (psd_num_at sim l i j) (\<lambda>n.
       Inr (emit (CreateArray (PartDmn l i j) (py_int n)) w))"

text \<open>The body of \<open>for l in ndD["trodes"]\<close>.\<close>

definition domains_trode :: "SimPETS \<Rightarrow> string \<Rightarrow> world \<Rightarrow> error + world" where
  "domains_trode sim l w =
     bindE (getitem (Nvol (ndD_s sim)) l) (\<lambda>nv.
     bindE (getitem (Npart (ndD_s sim)) l) (\<lambda>np.
       forM (py_range nv) (\<lambda>i. forM (py_range np) (domains_particle sim l i))
         (emit (CreateArray (DmnPart l) np) (emit (CreateArray (DmnCell l) nv) w))))"

definition SetUpParametersAndDomains :: "SimPETS \<Rightarrow> world \<Rightarrow> error + world" where
  "SetUpParametersAndDomains sim w =
     bindE (getitem (Nvol (ndD_s sim)) ''s'') (\<lambda>ns.
       forM (trodes (ndD_s sim)) (domains_trode sim)
         (if ns \<ge> 1 then emit (CreateArray (DmnCell ''s'') ns) w else w))"

section \<open>Initial values: fresh start\<close>

text \<open>Lines 69 to 90: one particle. The tag is tested against \<open>"1varTypes"\<close> first.\<close>

definition fresh_particle ::
  "SimPETS \<Rightarrow> string \<Rightarrow> real \<Rightarrow> nat \<Rightarrow> nat \<Rightarrow> world \<Rightarrow> error + world" where
  "fresh_particle sim l cs i j w =
     bindE (psd_num_at sim l i j) (\<lambda>Nij.
     bindE (solidType_at sim l i j) (\<lambda>solidType.
       if solidType \<in> set (oneVarTypes (ndD_s sim)) then
         bindE (range_num Nij) (\<lambda>ks.
           forM ks (\<lambda>k w'. Inr (emit (SetInitialCondition (Part l i j F_c) k cs) w'))
             (emit (SetInitialGuess (Part l i j F_cbar) cs) w))
       else if solidType \<in> set (twoVarTypes (ndD_s sim)) then
         bindE (np_random_rand Nij
                  (emit (SetInitialGuess (Part l i j F_cbar) cs)
                  (emit (SetInitialGuess (Part l i j F_c2bar) cs)
                  (emit (SetInitialGuess (Part l i j F_c1bar) cs) w)))) (\<lambda>(u1, w1).
         bindE (np_random_rand Nij w1) (\<lambda>(u2, w2).
         bindE (range_num Nij) (\<lambda>ks.
           forM ks (\<lambda>k w'. Inr
               (emit (SetInitialCondition (Part l i j F_c2) k (cs + demeaned (scaled u2) ! k))
               (emit (SetInitialCondition (Part l i j F_c1) k (cs + demeaned (scaled u1) ! k)) w')))
             w2)))
       else Inr w))"

text \<open>Lines 60 to 90: one volume of a region.\<close>

definition fresh_volume :: "SimPETS \<Rightarrow> string \<Rightarrow> real \<Rightarrow> nat \<Rightarrow> world \<Rightarrow> error + world" where
  "fresh_volume sim l cs i w =
     bindE (getitem (Npart (ndD_s sim)) l) (\<lambda>np.
       forM (py_range np) (fresh_particle sim l cs i)
         (emit (SetInitialGuessAt (Phi_bulk l) i
                  (if l = ''a'' then 0 else phi_cathode (ndD_s sim)))
         (emit (SetInitialGuessAt (R_Vp l) i 0) w)))"

text \<open>Lines 56 to 90: one region.\<close>

definition fresh_trode :: "SimPETS \<Rightarrow> string \<Rightarrow> world \<Rightarrow> error + world" where
  "fresh_trode sim l w =
     bindE (getitem (cs0 (ndD_s sim)) l) (\<lambda>cs.
     bindE (getitem (Nvol (ndD_s sim)) l) (\<lambda>nv.
       forM (py_range nv) (fresh_volume sim l cs)
         (emit (SetInitialGuess (Ffrac l) cs) w)))"

text \<open>Lines 94 to 100: the electrolyte of one region (or of the separator).\<close>

definition fresh_lyte :: "SimPETS \<Rightarrow> string \<Rightarrow> world \<Rightarrow> error + world" where
  "fresh_lyte sim l w =
     bindE (getitem (Nvol (ndD_s sim)) l) (\<lambda>nv.
       forM (py_range nv) (\<lambda>i w'. Inr
           (emit (SetInitialGuessAt (Phi_lyte l) i 0)
           (emit (SetInitialCondition (C_lyte l) i (c0 (ndD_s sim))) w')))
         w)"

definition SetUpVariables_fresh :: "SimPETS \<Rightarrow> world \<Rightarrow> error + world" where
  "SetUpVariables_fresh sim w =
     bindE (forM (trodes (ndD_s sim)) (fresh_trode sim) w) (\<lambda>w1.
     bindE (fresh_lyte sim ''s'' w1) (\<lambda>w2.
     bindE (forM (trodes (ndD_s sim)) (fresh_lyte sim) w2) (\<lambda>w3.
       Inr (emit (SetInitialGuess Phi_applied 0) w3))))"

section \<open>Initial values: restart\<close>

text \<open>\<open>dPrev[key][0,-1]\<close> and \<open>dPrev[key][-1,i]\<close>\<close>

definition prev_scalar :: "checkpoint \<Rightarrow> string \<Rightarrow> error + real" where
  "prev_scalar dPrev key = bindE (getitem dPrev key) idx_first_last"

definition prev_at :: "checkpoint \<Rightarrow> string \<Rightarrow> nat \<Rightarrow> error + real" where
  "prev_at dPrev key i = bindE (getitem dPrev key) (\<lambda>a. idx_last a i)"

text \<open>\<open>"partTrode{l}vol{i}part{j}_".format(l=l, i=i, j=j)\<close>\<close>

definition partStr :: "string \<Rightarrow> nat \<Rightarrow> nat \<Rightarrow> string" where
  "partStr l i j = ''partTrode'' @ l @ ''vol'' @ str_nat i @ ''part'' @ str_nat j @ ''_''"

text \<open>Lines 115 to 137: one particle.\<close>

definition restart_particle ::
  "SimPETS \<Rightarrow> checkpoint \<Rightarrow> string \<Rightarrow> nat \<Rightarrow> nat \<Rightarrow> world \<Rightarrow> error + world" where
  "restart_particle sim dPrev l i j w =
     bindE (psd_num_at sim l i j) (\<lambda>Nij.
     bindE (solidType_at sim l i j) (\<lambda>solidType.
       if solidType \<in> set (oneVarTypes (ndD_s sim)) then
         bindE (prev_scalar dPrev (partStr l i j @ ''cbar'')) (\<lambda>v.
         bindE (range_num Nij) (\<lambda>ks.
           forM ks (\<lambda>k w'.
               bindE (prev_at dPrev (partStr l i j @ ''c'') k) (\<lambda>x.
                 Inr (emit (SetInitialCondition (Part l i j F_c) k x) w')))
             (emit (SetInitialGuess (Part l i j F_cbar) v) w)))
       else if solidType \<in> set (twoVarTypes (ndD_s sim)) then
         bindE (prev_scalar dPrev (partStr l i j @ ''c1bar'')) (\<lambda>v1.
         bindE (prev_scalar dPrev (partStr l i j @ ''c2bar'')) (\<lambda>v2.
         bindE (prev_scalar dPrev (partStr l i j @ ''cbar'')) (\<lambda>v.
         bindE (range_num Nij) (\<lambda>ks.
           forM ks (\<lambda>k w'.
               bindE (prev_at dPrev (partStr l i j @ ''c1'') k) (\<lambda>x1.
               bindE (prev_at dPrev (partStr l i j @ ''c2'') k) (\<lambda>x2.
                 Inr (emit (SetInitialCondition (Part l i j F_c2) k x2)
                     (emit (SetInitialCondition (Part l i j F_c1) k x1) w')))))
             (emit (SetInitialGuess (Part l i j F_cbar) v)
             (emit (SetInitialGuess (Part l i j F_c2bar) v2)
             (emit (SetInitialGuess (Part l i j F_c1bar) v1) w)))))))
       else Inr w))"

text \<open>Lines 110 to 137: one volume of a region.\<close>

definition restart_volume ::
  "SimPETS \<Rightarrow> checkpoint \<Rightarrow> string \<Rightarrow> nat \<Rightarrow> world \<Rightarrow> error + world" where
  "restart_volume sim dPrev l i w =
     bindE (prev_at dPrev (''R_Vp_'' @ l) i) (\<lambda>r.
     bindE (prev_at dPrev (''phi_bulk_'' @ l) i) (\<lambda>p.
     bindE (getitem (Npart (ndD_s sim)) l) (\<lambda>np.
       forM (py_range np) (restart_particle sim dPrev l i)
         (emit (SetInitialGuessAt (Phi_bulk l) i p)
         (emit (SetInitialGuessAt (R_Vp l) i r) w)))))"

text \<open>Lines 107 to 137: one region.\<close>

definition restart_trode :: "SimPETS \<Rightarrow> checkpoint \<Rightarrow> string \<Rightarrow> world \<Rightarrow> error + world" where
  "restart_trode sim dPrev l w =
     bindE (prev_scalar dPrev (''ffrac_'' @ l)) (\<lambda>f.
     bindE (getitem (Nvol (ndD_s sim)) l) (\<lambda>nv.
       forM (py_range nv) (restart_volume sim dPrev l)
         (emit (SetInitialGuess (Ffrac l) f) w)))"

text \<open>Lines 138 to 148: the electrolyte of one region (or of the separator).\<close>

definition restart_lyte :: "SimPETS \<Rightarrow> checkpoint \<Rightarrow> string \<Rightarrow> world \<Rightarrow> error + world" where
  "restart_lyte sim dPrev l w =
     bindE (getitem (Nvol (ndD_s sim)) l) (\<lambda>nv.
       forM (py_range nv) (\<lambda>i w'.
           bindE (prev_at dPrev (''c_lyte_'' @ l) i) (\<lambda>c.
           bindE (prev_at dPrev (''phi_lyte_'' @ l) i) (\<lambda>p.
             Inr (emit (SetInitialGuessAt (Phi_lyte l) i p)
                 (emit (SetInitialCondition (C_lyte l) i c) w')))))
         w)"

definition SetUpVariables_restart :: "SimPETS \<Rightarrow> checkpoint \<Rightarrow> world \<Rightarrow> error + world" where
  "SetUpVariables_restart sim dPrev w =
     bindE (forM (trodes (ndD_s sim)) (restart_trode sim dPrev) w) (\<lambda>w1.
     bindE (restart_lyte sim dPrev ''s'' w1) (\<lambda>w2.
     bindE (forM (trodes (ndD_s sim)) (restart_lyte sim dPrev) w2) (\<lambda>w3.
     bindE (prev_scalar dPrev ''phi_applied'') (\<lambda>p.
       Inr (emit (SetInitialGuess Phi_applied p) w3)))))"

section \<open>State initialization\<close>

text \<open>
  \<open>SimPETS.SetUpVariables\<close>: the branch on \<open>ndD_s["prevDir"] == "false"\<close>, then the
  assignment of \<open>dummyVar\<close>. Reading \<open>self.dataPrev\<close> on an object whose constructor did
  not set it raises \<open>AttributeError\<close>.
\<close>

definition SetUpVariables :: "SimPETS \<Rightarrow> world \<Rightarrow> error + world" where
  "SetUpVariables sim w =
     bindE (if prevDir (ndD_s sim) = ''false'' then SetUpVariables_fresh sim w
            else (case dataPrev sim of
                    None \<Rightarrow> Inl AttributeError
                  | Some dPrev \<Rightarrow> SetUpVariables_restart sim dPrev w))
       (\<lambda>w'. Inr (emit (AssignValue DummyVar 0) w'))"

section \<open>The time-stepping driver\<close>

text \<open>
  What \<open>Run\<close> uses of the base class \<open>daeSimulation\<close>: the integration primitive, which
  returns the time reached and may fail, the clock, the horizon and the report times.
  The solver's state is the type parameter.
\<close>

record 'st solver =
  IntegrateUntilTime :: "'st \<Rightarrow> real \<Rightarrow> error + real \<times> 'st"
  CurrentTime :: "'st \<Rightarrow> real"
  TimeHorizon :: real
  ReportingTimes :: "real list"

text \<open>
  What \<open>Run\<close> does to its collaborators, in order: the log message with its two times,
  the integration request, the data report, the progress value.
\<close>

datatype run_event =
    LogMessage real real
  | Integrate real
  | ReportData real
  | SetProgress int

text \<open>
  The loop of \<open>Run\<close> from the report time at the head of the list on. The product with
  \<open>tScale = None\<close> raises \<open>TypeError\<close>, the division by a zero horizon
  \<open>ZeroDivisionError\<close>; \<open>break\<close> returns without looking at the remaining times.
\<close>

fun Run_loop ::
  "real option \<Rightarrow> 'st solver \<Rightarrow> real list \<Rightarrow> 'st \<times> run_event list
     \<Rightarrow> error + 'st \<times> run_event list" where
  "Run_loop ts slv [] (st, ev) = Inr (st, ev)"
| "Run_loop ts slv (nextTime # rest) (st, ev) =
     (case ts of
        None \<Rightarrow> Inl TypeError
      | Some k \<Rightarrow>
          bindE (IntegrateUntilTime slv st nextTime) (\<lambda>(time, st').
            if TimeHorizon slv = 0 then Inl ZeroDivisionError
            else
              (let ev' = ev @ [LogMessage (CurrentTime slv st * k) (nextTime * k),
                               Integrate nextTime,
                               ReportData (CurrentTime slv st'),
                               SetProgress (py_trunc (100 * CurrentTime slv st' / TimeHorizon slv))]
               in if time < nextTime then Inr (st', ev')
                  else Run_loop ts slv rest (st', ev'))))"

definition Run :: "SimPETS \<Rightarrow> 'st solver \<Rightarrow> 'st \<Rightarrow> error + 'st \<times> run_event list" where
  "Run sim slv st = Run_loop (tScale sim) slv (ReportingTimes slv) (st, [])"

section \<open>Vocabulary of the statements\<close>

text \<open>
  \<open>extends Q w w'\<close>: the world \<open>w'\<close> differs from \<open>w\<close> by further calls on the model, each
  satisfying \<open>Q\<close>, and by draws consumed from the random stream.
\<close>

definition extends :: "(call \<Rightarrow> bool) \<Rightarrow> world \<Rightarrow> world \<Rightarrow> bool" where
  "extends Q w w' =
     (\<exists>ev d. calls w' = calls w @ ev \<and> rand_src w' = (\<lambda>k. rand_src w (k + d)) \<and> list_all Q ev)"


definition calls_of :: "error + world \<Rightarrow> error + call list" where
  "calls_of r = map_sum id calls r"

text \<open>The variable a call assigns, if it assigns one.\<close>

fun call_var :: "call \<Rightarrow> var option" where
  "call_var (CreateArray _ _) = None"
| "call_var (SetInitialGuess x _) = Some x"
| "call_var (SetInitialGuessAt x _ _) = Some x"
| "call_var (SetInitialCondition x _ _) = Some x"
| "call_var (AssignValue x _) = Some x"

text \<open>
  The kind of a particle as the \<open>if\<close>/\<open>elif\<close> chain of \<open>SetUpVariables\<close> decides it: the
  single-field set is tested first; a tag in neither set has no kind.
\<close>

datatype kind = SingleField | TwoField

definition kind_of :: "SimPETS \<Rightarrow> string \<Rightarrow> nat \<Rightarrow> nat \<Rightarrow> kind option" where
  "kind_of sim l i j =
     (case solidType_at sim l i j of
        Inl _ \<Rightarrow> None
      | Inr t \<Rightarrow>
          if t \<in> set (oneVarTypes (ndD_s sim)) then Some SingleField
          else if t \<in> set (twoVarTypes (ndD_s sim)) then Some TwoField
          else None)"

text \<open>The average fields and the per-point fields a particle of each kind owns.\<close>

definition avg_field_ok :: "SimPETS \<Rightarrow> string \<Rightarrow> nat \<Rightarrow> nat \<Rightarrow> pfield \<Rightarrow> bool" where
  "avg_field_ok sim l i j f =
     (case kind_of sim l i j of
        None \<Rightarrow> False
      | Some SingleField \<Rightarrow> f = F_cbar
      | Some TwoField \<Rightarrow> f = F_c1bar \<or> f = F_c2bar \<or> f = F_cbar)"

definition point_field_ok :: "SimPETS \<Rightarrow> string \<Rightarrow> nat \<Rightarrow> nat \<Rightarrow> pfield \<Rightarrow> nat \<Rightarrow> bool" where
  "point_field_ok sim l i j f k =
     ((case psd_num_at sim l i j of Inr (PyInt n) \<Rightarrow> k < nat n | _ \<Rightarrow> False) \<and>
      (case kind_of sim l i j of
         None \<Rightarrow> False
       | Some SingleField \<Rightarrow> f = F_c
       | Some TwoField \<Rightarrow> f = F_c1 \<or> f = F_c2))"

text \<open>
  The calls of fresh-start mode, with the values the configuration prescribes. The two
  perturbed profiles of a two-field particle are only located here; their values are
  the subject of a theorem of their own.
\<close>

definition fresh_call :: "SimPETS \<Rightarrow> call \<Rightarrow> bool" where
  "fresh_call sim c =
     (case c of
        SetInitialGuess x v \<Rightarrow>
          (case x of
             Ffrac l \<Rightarrow> cs0 (ndD_s sim) l = Some v
           | Phi_applied \<Rightarrow> v = 0
           | Part l i j f \<Rightarrow> avg_field_ok sim l i j f \<and> cs0 (ndD_s sim) l = Some v
           | _ \<Rightarrow> False)
      | SetInitialGuessAt x i v \<Rightarrow>
          (case x of
             R_Vp l \<Rightarrow> v = 0
           | Phi_bulk l \<Rightarrow> v = (if l = ''a'' then 0 else phi_cathode (ndD_s sim))
           | Phi_lyte l \<Rightarrow> v = 0
           | _ \<Rightarrow> False)
      | SetInitialCondition x k v \<Rightarrow>
          (case x of
             C_lyte l \<Rightarrow> v = c0 (ndD_s sim)
           | Part l i j f \<Rightarrow>
               point_field_ok sim l i j f k \<and> (f \<noteq> F_c \<or> cs0 (ndD_s sim) l = Some v)
           | _ \<Rightarrow> False)
      | _ \<Rightarrow> False)"

text \<open>The key suffix of a particle field in the checkpoint.\<close>

fun field_name :: "pfield \<Rightarrow> string" where
  "field_name F_c = ''c''"
| "field_name F_cbar = ''cbar''"
| "field_name F_c1 = ''c1''"
| "field_name F_c2 = ''c2''"
| "field_name F_c1bar = ''c1bar''"
| "field_name F_c2bar = ''c2bar''"

text \<open>
  The calls of restart mode: each value is the last time sample the checkpoint holds
  under the key of the quantity.
\<close>

definition restart_call :: "SimPETS \<Rightarrow> checkpoint \<Rightarrow> call \<Rightarrow> bool" where
  "restart_call sim dPrev c =
     (case c of
        SetInitialGuess x v \<Rightarrow>
          (case x of
             Ffrac l \<Rightarrow> prev_scalar dPrev (''ffrac_'' @ l) = Inr v
           | Phi_applied \<Rightarrow> prev_scalar dPrev ''phi_applied'' = Inr v
           | Part l i j f \<Rightarrow>
               avg_field_ok sim l i j f \<and>
               prev_scalar dPrev (partStr l i j @ field_name f) = Inr v
           | _ \<Rightarrow> False)
      | SetInitialGuessAt x i v \<Rightarrow>
          (case x of
             R_Vp l \<Rightarrow> prev_at dPrev (''R_Vp_'' @ l) i = Inr v
           | Phi_bulk l \<Rightarrow> prev_at dPrev (''phi_bulk_'' @ l) i = Inr v
           | Phi_lyte l \<Rightarrow> prev_at dPrev (''phi_lyte_'' @ l) i = Inr v
           | _ \<Rightarrow> False)
      | SetInitialCondition x k v \<Rightarrow>
          (case x of
             C_lyte l \<Rightarrow> prev_at dPrev (''c_lyte_'' @ l) k = Inr v
           | Part l i j f \<Rightarrow>
               point_field_ok sim l i j f k \<and>
               prev_at dPrev (partStr l i j @ field_name f) k = Inr v
           | _ \<Rightarrow> False)
      | _ \<Rightarrow> False)"

text \<open>The index spaces of domain allocation, with their sizes.\<close>

definition domain_call :: "SimPETS \<Rightarrow> call \<Rightarrow> bool" where
  "domain_call sim c =
     (case c of
        CreateArray d n \<Rightarrow>
          (case d of
             DmnCell l \<Rightarrow>
               Nvol (ndD_s sim) l = Some n \<and>
               (l \<in> set (trodes (ndD_s sim)) \<or> l = ''s'' \<and> n \<ge> 1)
           | DmnPart l \<Rightarrow> l \<in> set (trodes (ndD_s sim)) \<and> Npart (ndD_s sim) l = Some n
           | PartDmn l i j \<Rightarrow>
               l \<in> set (trodes (ndD_s sim)) \<and>
               (case psd_num_at sim l i j of Inl _ \<Rightarrow> False | Inr x \<Rightarrow> n = py_int x))
      | _ \<Rightarrow> False)"

text \<open>A particle of the domain: region \<open>l\<close> is present, \<open>i\<close> and \<open>j\<close> are within its counts.\<close>

definition in_domain :: "SimPETS \<Rightarrow> string \<Rightarrow> nat \<Rightarrow> nat \<Rightarrow> bool" where
  "in_domain sim l i j =
     (l \<in> set (trodes (ndD_s sim)) \<and>
      (case Nvol (ndD_s sim) l of None \<Rightarrow> False | Some nv \<Rightarrow> i < nat nv) \<and>
      (case Npart (ndD_s sim) l of None \<Rightarrow> False | Some np \<Rightarrow> j < nat np))"

text \<open>A volume of region \<open>l\<close>, and a volume of the separator.\<close>

definition in_volume :: "SimPETS \<Rightarrow> string \<Rightarrow> nat \<Rightarrow> bool" where
  "in_volume sim l i =
     (l \<in> set (trodes (ndD_s sim)) \<and>
      (case Nvol (ndD_s sim) l of None \<Rightarrow> False | Some nv \<Rightarrow> i < nat nv))"

definition in_separator :: "SimPETS \<Rightarrow> nat \<Rightarrow> bool" where
  "in_separator sim i = (case Nvol (ndD_s sim) ''s'' of None \<Rightarrow> False | Some ns \<Rightarrow> i < nat ns)"

text \<open>The events of one completed step of \<open>Run\<close>, between the solver states around it.\<close>

definition step_events :: "real \<Rightarrow> 'st solver \<Rightarrow> real \<Rightarrow> 'st \<times> 'st \<Rightarrow> run_event list" where
  "step_events k slv t ss =
     [LogMessage (CurrentTime slv (fst ss) * k) (t * k), Integrate t,
      ReportData (CurrentTime slv (snd ss)),
      SetProgress (py_trunc (100 * CurrentTime slv (snd ss) / TimeHorizon slv))]"


section \<open>Example configurations\<close>

text \<open>
  One cathode volume with two particles, the first of a single-field kind with two points,
  the second of a two-field kind with four points, and one separator volume.
\<close>

definition ex_cfg :: config_s where
  "ex_cfg = \<lparr>Nvol = [''c'' \<mapsto> 1, ''s'' \<mapsto> 1], Npart = [''c'' \<mapsto> 2], trodes = [''c''],
     psd_num = [''c'' \<mapsto> [[PyInt 2, PyInt 4]]], cs0 = [''c'' \<mapsto> 0.5], c0 = 1,
     phi_cathode = 3, prevDir = ''false'', oneVarTypes = [''ACR''], twoVarTypes = [''ACR2''],
     currPrev = 0, phiPrev = 0\<rparr>"

definition ex_cfg_e :: config_e where
  "ex_cfg_e = [''c'' \<mapsto> [[''ACR'', ''ACR2'']]]"

definition ex_sim :: SimPETS where
  "ex_sim = \<lparr>ndD_s = ex_cfg, ndD_e = ex_cfg_e, tScale = Some 1, dataPrev = None\<rparr>"

text \<open>No call made yet; the fourth draw is \<open>0.75\<close>, every other draw is \<open>0\<close>.\<close>

definition ex_world :: world where
  "ex_world = \<lparr>calls = [], rand_src = (\<lambda>k. if k = 3 then 0.75 else 0)\<rparr>"

text \<open>The second particle carries a tag of neither kind-set.\<close>

definition ex_sim_unknown :: SimPETS where
  "ex_sim_unknown = ex_sim\<lparr>ndD_e := [''c'' \<mapsto> [[''ACR'', ''graphite'']]]\<rparr>"

text \<open>The first particle's discretization count is the float \<open>2.7\<close>.\<close>

definition ex_sim_float :: SimPETS where
  "ex_sim_float = ex_sim\<lparr>ndD_s := ex_cfg\<lparr>psd_num := [''c'' \<mapsto> [[PyFloat 2.7, PyInt 4]]]\<rparr>\<rparr>"

text \<open>A checkpoint of two time samples for the example configuration.\<close>

definition ex_prev :: checkpoint where
  "ex_prev =
     [''current'' \<mapsto> [[0, 0.1]], ''phi_applied'' \<mapsto> [[0, 3.4]],
      ''ffrac_c'' \<mapsto> [[0.5, 0.6]],
      ''R_Vp_c'' \<mapsto> [[0], [0.01]], ''phi_bulk_c'' \<mapsto> [[3], [3.3]],
      ''partTrodecvol0part0_cbar'' \<mapsto> [[0.5, 0.61]],
      ''partTrodecvol0part0_c'' \<mapsto> [[0.5, 0.5], [0.6, 0.62]],
      ''partTrodecvol0part1_c1bar'' \<mapsto> [[0.5, 0.58]],
      ''partTrodecvol0part1_c2bar'' \<mapsto> [[0.5, 0.6]],
      ''partTrodecvol0part1_cbar'' \<mapsto> [[0.5, 0.59]],
      ''partTrodecvol0part1_c1'' \<mapsto> [[0.5, 0.5, 0.5, 0.5], [0.55, 0.57, 0.59, 0.61]],
      ''partTrodecvol0part1_c2'' \<mapsto> [[0.5, 0.5, 0.5, 0.5], [0.57, 0.59, 0.61, 0.63]],
      ''c_lyte_s'' \<mapsto> [[1], [0.9]], ''phi_lyte_s'' \<mapsto> [[0], [0.2]],
      ''c_lyte_c'' \<mapsto> [[1], [0.8]], ''phi_lyte_c'' \<mapsto> [[0], [0.3]]]"

text \<open>The only directory with an \<open>output_data.mat\<close> is named \<open>none\<close>.\<close>

definition ex_loadmat :: "string \<rightharpoonup> checkpoint" where
  "ex_loadmat = [''none'' \<mapsto> ex_prev]"

definition ex_sim_none :: SimPETS where
  "ex_sim_none = \<lparr>ndD_s = ex_cfg\<lparr>prevDir := ''none'', currPrev := 0.1, phiPrev := 3.4\<rparr>,
     ndD_e = ex_cfg_e, tScale = Some 1, dataPrev = Some ex_prev\<rparr>"

text \<open>A solver that meets a discontinuity at time \<open>1.5\<close>, and one that never does.\<close>

definition stub_halting :: "real solver" where
  "stub_halting =
     \<lparr>IntegrateUntilTime = (\<lambda>st t. if t \<le> 1.5 then Inr (t, t) else Inr (1.5, 1.5)),
      CurrentTime = (\<lambda>st. st), TimeHorizon = 3, ReportingTimes = [1, 2, 3]\<rparr>"


section \<open>Basic facts\<close>

lemma bindE_Inr: "bindE r f = Inr y \<longleftrightarrow> (\<exists>x. r = Inr x \<and> f x = Inr y)"
  by (cases r) (simp_all add: bindE_def)

lemma bindE_simps [simp]: "bindE (Inr x) f = f x" "bindE (Inl e) f = Inl e"
  by (simp_all add: bindE_def)

lemma getitem_Inr: "getitem d k = Inr v \<longleftrightarrow> d k = Some v"
  by (simp add: getitem_def split: option.splits)

lemma extends_refl: "extends Q w w"
  unfolding extends_def by (rule exI [of _ "[]"], rule exI [of _ 0]) simp

lemma extends_trans:
  assumes "extends Q w w1" and "extends Q w1 w2"
  shows "extends Q w w2"
proof -
  from assms(1) obtain a d where a: "calls w1 = calls w @ a"
    "rand_src w1 = (\<lambda>k. rand_src w (k + d))" "list_all Q a"
    unfolding extends_def by blast
  from assms(2) obtain b e where b: "calls w2 = calls w1 @ b"
    "rand_src w2 = (\<lambda>k. rand_src w1 (k + e))" "list_all Q b"
    unfolding extends_def by blast
  have "calls w2 = calls w @ (a @ b)" using a b by simp
  moreover have "rand_src w2 = (\<lambda>k. rand_src w (k + (e + d)))"
    using a b by (simp add: add.assoc)
  moreover have "list_all Q (a @ b)" using a b by simp
  ultimately show ?thesis unfolding extends_def by blast
qed

lemma extends_emit: "Q c \<Longrightarrow> extends Q w (emit c w)"
  unfolding extends_def emit_def
  by (rule exI [of _ "[c]"], rule exI [of _ 0]) simp

lemma extends_emit_then: "Q c \<Longrightarrow> extends Q (emit c w) w' \<Longrightarrow> extends Q w w'"
  by (blast intro: extends_trans extends_emit)

lemma extends_rand: "np_random_rand x w = Inr (u, w') \<Longrightarrow> extends Q w w'"
  unfolding extends_def np_random_rand_def
  by (auto split: pynum.splits if_splits intro!: exI [of _ "[]"])

lemma extends_weaken: "extends Q w w' \<Longrightarrow> (\<And>c. Q c \<Longrightarrow> R c) \<Longrightarrow> extends R w w'"
  unfolding extends_def list_all_iff by blast

text \<open>A loop whose every iteration extends the world extends it as a whole.\<close>

lemma forM_extends:
  assumes "\<And>x v v'. x \<in> set xs \<Longrightarrow> body x v = Inr v' \<Longrightarrow> extends Q v v'"
    and "forM xs body w = Inr w'"
  shows "extends Q w w'"
  using assms
proof (induction xs arbitrary: w)
  case Nil
  then show ?case by (simp add: extends_refl)
next
  case (Cons x xs)
  from Cons.prems(2) obtain v where v: "body x w = Inr v" "forM xs body v = Inr w'"
    by (auto simp: bindE_Inr)
  have "extends Q w v" using Cons.prems(1) [of x w v] v(1) by simp
  moreover have "extends Q v w'"
    by (rule Cons.IH [OF _ v(2)]) (rule Cons.prems(1), simp_all)
  ultimately show ?case by (rule extends_trans)
qed

text \<open>A loop that returns has run the iteration of each of its elements.\<close>

lemma forM_step:
  assumes "\<And>y v v'. y \<in> set xs \<Longrightarrow> body y v = Inr v' \<Longrightarrow> extends Q v v'"
    and "forM xs body w = Inr w'" and "x \<in> set xs"
  shows "\<exists>v v'. extends Q w v \<and> body x v = Inr v' \<and> extends Q v' w'"
  using assms
proof (induction xs arbitrary: w)
  case Nil
  then show ?case by simp
next
  case (Cons y ys)
  from Cons.prems(2) obtain u where u: "body y w = Inr u" "forM ys body u = Inr w'"
    by (auto simp: bindE_Inr)
  have wu: "extends Q w u" using Cons.prems(1) [of y w u] u(1) by simp
  have tl: "\<And>z v v'. z \<in> set ys \<Longrightarrow> body z v = Inr v' \<Longrightarrow> extends Q v v'"
    by (rule Cons.prems(1)) simp_all
  have rest: "extends Q u w'"
    by (rule forM_extends [OF tl u(2)])
  show ?case
  proof (cases "x = y")
    case True
    then show ?thesis using u(1) rest extends_refl by blast
  next
    case False
    have "\<exists>v v'. extends Q u v \<and> body x v = Inr v' \<and> extends Q v' w'"
    proof (rule Cons.IH)
      show "\<And>z v v'. z \<in> set ys \<Longrightarrow> body z v = Inr v' \<Longrightarrow> extends Q v v'" by (rule tl)
      show "forM ys body u = Inr w'" by (rule u(2))
      show "x \<in> set ys" using False Cons.prems(3) by simp
    qed
    then obtain v v' where "extends Q u v" "body x v = Inr v'" "extends Q v' w'"
      by blast
    then show ?thesis using wu extends_trans by blast
  qed
qed

lemma forM_succeeds:
  assumes "\<And>x v. x \<in> set xs \<Longrightarrow> \<exists>v'. body x v = Inr v'"
  shows "\<exists>w'. forM xs body w = Inr w'"
  using assms
proof (induction xs arbitrary: w)
  case Nil
  then show ?case by simp
next
  case (Cons x xs)
  then obtain v where "body x w = Inr v" by (meson list.set_intros(1))
  moreover obtain w' where "forM xs body v = Inr w'" using Cons by (meson list.set_intros(2))
  ultimately show ?case by simp
qed

section \<open>The time-stepping driver: early halt\<close>

text \<open>
  C5. Whenever the loop of \<open>Run\<close> stands at a report time and the integration call returns
  a clock value strictly below it, the run ends normally with the events of that step
  (log message, the one integration request, data report, progress) appended to the
  earlier ones: the remaining report times have no effect and no further integration
  is requested. The time scale is given and the horizon is not zero.
\<close>

theorem Run_loop_early_halt:
  assumes "IntegrateUntilTime slv st nextTime = Inr (time, st')"
    and "time < nextTime" and "TimeHorizon slv \<noteq> 0"
  shows "Run_loop (Some k) slv (nextTime # rest) (st, ev) =
           Inr (st', ev @ step_events k slv nextTime (st, st'))"
  using assms by (simp add: step_events_def)

theorem Run_loop_early_halt_witness:
  "Run ex_sim stub_halting 0 =
     Inr (3/2, [LogMessage 0 1, Integrate 1, ReportData 1, SetProgress 33,
                LogMessage 1 2, Integrate 2, ReportData (3/2), SetProgress 50])"
proof -
  have "Run_loop (Some 1) stub_halting (2 # [3])
          (1, [LogMessage 0 1, Integrate 1, ReportData 1, SetProgress 33]) =
        Inr (3/2, [LogMessage 0 1, Integrate 1, ReportData 1, SetProgress 33] @
                  step_events 1 stub_halting 2 (1, 3/2))"
    by (rule Run_loop_early_halt [where time = "3/2"]) (simp_all add: stub_halting_def)
  then show ?thesis
    by (simp add: Run_def ex_sim_def stub_halting_def py_trunc_def step_events_def)
qed

section \<open>The time-stepping driver: a run without discontinuity\<close>




section \<open>Evaluating the examples\<close>

lemmas eval_defs =
  SetUpVariables_def SetUpVariables_fresh_def SetUpVariables_restart_def
  fresh_trode_def fresh_volume_def fresh_particle_def fresh_lyte_def
  restart_trode_def restart_volume_def restart_particle_def restart_lyte_def
  SetUpParametersAndDomains_def domains_trode_def domains_particle_def
  psd_num_at_def solidType_at_def prev_scalar_def prev_at_def partStr_def
  getitem_def idx2_def idx_first_last_def idx_last_def py_range_def range_num_def
  np_random_rand_def emit_def calls_of_def py_int_def py_trunc_def
  scaled_def demeaned_def np_mean_def epsrnd_def upt_rec digit_char_def

lemma str_nat_0 [simp]: "str_nat 0 = ''0''"
  by (simp add: str_nat.simps [of 0] digit_char_def)

lemma str_nat_1 [simp]: "str_nat (Suc 0) = ''1''"
  by (simp add: str_nat.simps [of "Suc 0"] digit_char_def)

lemma ex_fresh_calls:
  "calls_of (SetUpVariables ex_sim ex_world) =
     Inr [SetInitialGuess (Ffrac ''c'') (1 / 2),
      SetInitialGuessAt (R_Vp ''c'') 0 0,
      SetInitialGuessAt (Phi_bulk ''c'') 0 3,
      SetInitialGuess (Part ''c'' 0 0 F_cbar) (1 / 2),
      SetInitialCondition (Part ''c'' 0 0 F_c) 0 (1 / 2),
      SetInitialCondition (Part ''c'' 0 0 F_c) 1 (1 / 2),
      SetInitialGuess (Part ''c'' 0 1 F_c1bar) (1 / 2),
      SetInitialGuess (Part ''c'' 0 1 F_c2bar) (1 / 2),
      SetInitialGuess (Part ''c'' 0 1 F_cbar) (1 / 2),
      SetInitialCondition (Part ''c'' 0 1 F_c1) 0 (79997 / 160000),
      SetInitialCondition (Part ''c'' 0 1 F_c2) 0 (1 / 2),
      SetInitialCondition (Part ''c'' 0 1 F_c1) 1 (79997 / 160000),
      SetInitialCondition (Part ''c'' 0 1 F_c2) 1 (1 / 2),
      SetInitialCondition (Part ''c'' 0 1 F_c1) 2 (79997 / 160000),
      SetInitialCondition (Part ''c'' 0 1 F_c2) 2 (1 / 2),
      SetInitialCondition (Part ''c'' 0 1 F_c1) 3 (80009 / 160000),
      SetInitialCondition (Part ''c'' 0 1 F_c2) 3 (1 / 2),
      SetInitialCondition (C_lyte ''s'') 0 1,
      SetInitialGuessAt (Phi_lyte ''s'') 0 0,
      SetInitialCondition (C_lyte ''c'') 0 1,
      SetInitialGuessAt (Phi_lyte ''c'') 0 0, SetInitialGuess Phi_applied 0,
      AssignValue DummyVar 0]"
  by (simp add: ex_sim_def ex_cfg_def ex_cfg_e_def ex_world_def eval_defs)

lemma ex_restart_calls:
  "calls_of (SetUpVariables ex_sim_none ex_world) =
    Inr [SetInitialGuess (Ffrac ''c'') (3 / 5),
      SetInitialGuessAt (R_Vp ''c'') 0 (1 / 100),
      SetInitialGuessAt (Phi_bulk ''c'') 0 (33 / 10),
      SetInitialGuess (Part ''c'' 0 0 F_cbar) (61 / 100),
      SetInitialCondition (Part ''c'' 0 0 F_c) 0 (3 / 5),
      SetInitialCondition (Part ''c'' 0 0 F_c) 1 (31 / 50),
      SetInitialGuess (Part ''c'' 0 1 F_c1bar) (29 / 50),
      SetInitialGuess (Part ''c'' 0 1 F_c2bar) (3 / 5),
      SetInitialGuess (Part ''c'' 0 1 F_cbar) (59 / 100),
      SetInitialCondition (Part ''c'' 0 1 F_c1) 0 (11 / 20),
      SetInitialCondition (Part ''c'' 0 1 F_c2) 0 (57 / 100),
      SetInitialCondition (Part ''c'' 0 1 F_c1) 1 (57 / 100),
      SetInitialCondition (Part ''c'' 0 1 F_c2) 1 (59 / 100),
      SetInitialCondition (Part ''c'' 0 1 F_c1) 2 (59 / 100),
      SetInitialCondition (Part ''c'' 0 1 F_c2) 2 (61 / 100),
      SetInitialCondition (Part ''c'' 0 1 F_c1) 3 (61 / 100),
      SetInitialCondition (Part ''c'' 0 1 F_c2) 3 (63 / 100),
      SetInitialCondition (C_lyte ''s'') 0 (9 / 10),
      SetInitialGuessAt (Phi_lyte ''s'') 0 (1 / 5),
      SetInitialCondition (C_lyte ''c'') 0 (4 / 5),
      SetInitialGuessAt (Phi_lyte ''c'') 0 (3 / 10),
      SetInitialGuess Phi_applied (17 / 5), AssignValue DummyVar 0]"
  by (simp add: ex_sim_none_def ex_prev_def ex_cfg_def ex_cfg_e_def ex_world_def eval_defs)

lemma ex_init_none:
  "SimPETS_init ex_loadmat (Some (ex_cfg\<lparr>prevDir := ''none''\<rparr>)) (Some ex_cfg_e) (Some 1) = Inr ex_sim_none"
  by (simp add: SimPETS_init_def ex_loadmat_def ex_sim_none_def ex_prev_def ex_cfg_def getitem_def idx_first_last_def)

lemma ex_init:
  "SimPETS_init ex_loadmat (Some ex_cfg) (Some ex_cfg_e) (Some 1) = Inr ex_sim"
  by (simp add: SimPETS_init_def ex_loadmat_def ex_sim_def ex_cfg_def)

section \<open>Fresh-start calls carry the configured values\<close>

lemma range_num_Inr: "range_num x = Inr ks \<longleftrightarrow> (\<exists>n. x = PyInt n \<and> ks = [0..<nat n])"
  by (auto simp: range_num_def py_range_def split: pynum.splits)

lemma kind_of_single:
  "solidType_at sim l i j = Inr t \<Longrightarrow> t \<in> set (oneVarTypes (ndD_s sim)) \<Longrightarrow>
     kind_of sim l i j = Some SingleField"
  by (simp add: kind_of_def)

lemma kind_of_two:
  "solidType_at sim l i j = Inr t \<Longrightarrow> t \<notin> set (oneVarTypes (ndD_s sim)) \<Longrightarrow>
     t \<in> set (twoVarTypes (ndD_s sim)) \<Longrightarrow> kind_of sim l i j = Some TwoField"
  by (simp add: kind_of_def)

lemma kind_of_none:
  "solidType_at sim l i j = Inr t \<Longrightarrow> t \<notin> set (oneVarTypes (ndD_s sim)) \<Longrightarrow>
     t \<notin> set (twoVarTypes (ndD_s sim)) \<Longrightarrow> kind_of sim l i j = None"
  by (simp add: kind_of_def)

lemma extends_emit2: "Q a \<Longrightarrow> Q b \<Longrightarrow> extends Q w (emit b (emit a w))"
  by (blast intro: extends_emit_then extends_emit)

lemma extends_emit3: "Q a \<Longrightarrow> Q b \<Longrightarrow> Q c \<Longrightarrow> extends Q w (emit c (emit b (emit a w)))"
  by (blast intro: extends_emit_then extends_emit)

lemma fresh_particle_extends:
  assumes run: "fresh_particle sim l cs i j w = Inr w'"
    and cs: "cs0 (ndD_s sim) l = Some cs"
  shows "extends (fresh_call sim) w w'"
proof -
  from run obtain Nij t where N: "psd_num_at sim l i j = Inr Nij"
    and t: "solidType_at sim l i j = Inr t"
    and body:
      "(if t \<in> set (oneVarTypes (ndD_s sim)) then
         bindE (range_num Nij) (\<lambda>ks.
           forM ks (\<lambda>k w'. Inr (emit (SetInitialCondition (Part l i j F_c) k cs) w'))
             (emit (SetInitialGuess (Part l i j F_cbar) cs) w))
       else if t \<in> set (twoVarTypes (ndD_s sim)) then
         bindE (np_random_rand Nij
                  (emit (SetInitialGuess (Part l i j F_cbar) cs)
                  (emit (SetInitialGuess (Part l i j F_c2bar) cs)
                  (emit (SetInitialGuess (Part l i j F_c1bar) cs) w)))) (\<lambda>(u1, w1).
         bindE (np_random_rand Nij w1) (\<lambda>(u2, w2).
         bindE (range_num Nij) (\<lambda>ks.
           forM ks (\<lambda>k w'. Inr
               (emit (SetInitialCondition (Part l i j F_c2) k (cs + demeaned (scaled u2) ! k))
               (emit (SetInitialCondition (Part l i j F_c1) k (cs + demeaned (scaled u1) ! k)) w')))
             w2)))
       else Inr w) = Inr w'"
    unfolding fresh_particle_def by (auto simp: bindE_Inr)
  consider (one) "t \<in> set (oneVarTypes (ndD_s sim))"
    | (two) "t \<notin> set (oneVarTypes (ndD_s sim))" "t \<in> set (twoVarTypes (ndD_s sim))"
    | (none) "t \<notin> set (oneVarTypes (ndD_s sim))" "t \<notin> set (twoVarTypes (ndD_s sim))"
    by blast
  then show ?thesis
  proof cases
    case one
    have k: "kind_of sim l i j = Some SingleField" by (rule kind_of_single [OF t one])
    from body one obtain n where n: "Nij = PyInt n"
      and loop: "forM [0..<nat n]
          (\<lambda>k w'. Inr (emit (SetInitialCondition (Part l i j F_c) k cs) w'))
          (emit (SetInitialGuess (Part l i j F_cbar) cs) w) = Inr w'"
      by (auto simp: bindE_Inr range_num_Inr)
    have g: "fresh_call sim (SetInitialGuess (Part l i j F_cbar) cs)"
      by (simp add: fresh_call_def avg_field_ok_def k cs)
    have "extends (fresh_call sim) (emit (SetInitialGuess (Part l i j F_cbar) cs) w) w'"
    proof (rule forM_extends [OF _ loop])
      fix x v v'
      assume x: "x \<in> set [0..<nat n]"
        and "Inr (emit (SetInitialCondition (Part l i j F_c) x cs) v) = Inr v'"
      then have v': "v' = emit (SetInitialCondition (Part l i j F_c) x cs) v" by simp
      have "fresh_call sim (SetInitialCondition (Part l i j F_c) x cs)"
        using x by (simp add: fresh_call_def point_field_ok_def k cs N n)
      then show "extends (fresh_call sim) v v'" unfolding v' by (rule extends_emit)
    qed
    with g show ?thesis by (rule extends_emit_then)
  next
    case two
    have k: "kind_of sim l i j = Some TwoField" by (rule kind_of_two [OF t two])
    let ?w3 = "emit (SetInitialGuess (Part l i j F_cbar) cs)
                  (emit (SetInitialGuess (Part l i j F_c2bar) cs)
                  (emit (SetInitialGuess (Part l i j F_c1bar) cs) w))"
    from body two obtain u1 w1 u2 w2 n where r1: "np_random_rand Nij ?w3 = Inr (u1, w1)"
      and r2: "np_random_rand Nij w1 = Inr (u2, w2)" and n: "Nij = PyInt n"
      and loop: "forM [0..<nat n] (\<lambda>k w'. Inr
               (emit (SetInitialCondition (Part l i j F_c2) k (cs + demeaned (scaled u2) ! k))
               (emit (SetInitialCondition (Part l i j F_c1) k (cs + demeaned (scaled u1) ! k)) w')))
             w2 = Inr w'"
      by (auto simp: bindE_Inr range_num_Inr)
    have g: "\<And>f. f = F_c1bar \<or> f = F_c2bar \<or> f = F_cbar \<Longrightarrow>
               fresh_call sim (SetInitialGuess (Part l i j f) cs)"
      by (simp add: fresh_call_def avg_field_ok_def k cs)
    have a: "extends (fresh_call sim) w ?w3"
      by (rule extends_emit3) (simp_all add: g)
    have b: "extends (fresh_call sim) ?w3 w2"
      by (rule extends_trans [OF extends_rand [OF r1] extends_rand [OF r2]])
    have c: "extends (fresh_call sim) w2 w'"
    proof (rule forM_extends [OF _ loop])
      fix x v v'
      assume x: "x \<in> set [0..<nat n]"
        and "Inr (emit (SetInitialCondition (Part l i j F_c2) x (cs + demeaned (scaled u2) ! x))
               (emit (SetInitialCondition (Part l i j F_c1) x (cs + demeaned (scaled u1) ! x)) v))
             = Inr v'"
      then have v': "v' = emit (SetInitialCondition (Part l i j F_c2) x (cs + demeaned (scaled u2) ! x))
               (emit (SetInitialCondition (Part l i j F_c1) x (cs + demeaned (scaled u1) ! x)) v)"
        by simp
      have p: "\<And>f y. f = F_c1 \<or> f = F_c2 \<Longrightarrow> fresh_call sim (SetInitialCondition (Part l i j f) x y)"
        using x by (auto simp: fresh_call_def point_field_ok_def k N n)
      show "extends (fresh_call sim) v v'" unfolding v'
        by (rule extends_emit2) (simp_all add: p)
    qed
    show ?thesis by (rule extends_trans [OF a extends_trans [OF b c]])
  next
    case none
    with body have "w' = w" by simp
    then show ?thesis by (simp add: extends_refl)
  qed
qed

lemma fresh_volume_extends:
  assumes run: "fresh_volume sim l cs i w = Inr w'"
    and cs: "cs0 (ndD_s sim) l = Some cs"
  shows "extends (fresh_call sim) w w'"
proof -
  let ?w2 = "emit (SetInitialGuessAt (Phi_bulk l) i
                  (if l = ''a'' then 0 else phi_cathode (ndD_s sim)))
             (emit (SetInitialGuessAt (R_Vp l) i 0) w)"
  from run obtain np where
    loop: "forM (py_range np) (fresh_particle sim l cs i) ?w2 = Inr w'"
    unfolding fresh_volume_def by (auto simp: bindE_Inr)
  have a: "extends (fresh_call sim) w ?w2"
    by (rule extends_emit2) (simp_all add: fresh_call_def)
  have b: "extends (fresh_call sim) ?w2 w'"
    by (rule forM_extends [OF _ loop]) (rule fresh_particle_extends [OF _ cs])
  show ?thesis by (rule extends_trans [OF a b])
qed

lemma fresh_trode_extends:
  assumes run: "fresh_trode sim l w = Inr w'"
  shows "extends (fresh_call sim) w w'"
proof -
  from run obtain cs nv where cs: "cs0 (ndD_s sim) l = Some cs"
    and loop: "forM (py_range nv) (fresh_volume sim l cs)
                 (emit (SetInitialGuess (Ffrac l) cs) w) = Inr w'"
    unfolding fresh_trode_def by (auto simp: bindE_Inr getitem_Inr)
  have a: "fresh_call sim (SetInitialGuess (Ffrac l) cs)"
    by (simp add: fresh_call_def cs)
  have b: "extends (fresh_call sim) (emit (SetInitialGuess (Ffrac l) cs) w) w'"
    by (rule forM_extends [OF _ loop]) (rule fresh_volume_extends [OF _ cs])
  show ?thesis by (rule extends_emit_then [OF a b])
qed

lemma fresh_lyte_extends:
  assumes run: "fresh_lyte sim l w = Inr w'"
  shows "extends (fresh_call sim) w w'"
proof -
  from run obtain nv where
    loop: "forM (py_range nv) (\<lambda>i w'. Inr
           (emit (SetInitialGuessAt (Phi_lyte l) i 0)
           (emit (SetInitialCondition (C_lyte l) i (c0 (ndD_s sim))) w'))) w = Inr w'"
    unfolding fresh_lyte_def by (auto simp: bindE_Inr)
  show ?thesis
  proof (rule forM_extends [OF _ loop])
    fix x v v'
    assume "Inr (emit (SetInitialGuessAt (Phi_lyte l) x 0)
           (emit (SetInitialCondition (C_lyte l) x (c0 (ndD_s sim))) v)) = Inr v'"
    then have v': "v' = emit (SetInitialGuessAt (Phi_lyte l) x 0)
           (emit (SetInitialCondition (C_lyte l) x (c0 (ndD_s sim))) v)" by simp
    show "extends (fresh_call sim) v v'" unfolding v'
      by (rule extends_emit2) (simp_all add: fresh_call_def)
  qed
qed

lemma SetUpVariables_fresh_extends:
  assumes run: "SetUpVariables_fresh sim w = Inr w'"
  shows "extends (fresh_call sim) w w'"
proof -
  from run obtain w1 w2 w3 where
    s1: "forM (trodes (ndD_s sim)) (fresh_trode sim) w = Inr w1"
    and s2: "fresh_lyte sim ''s'' w1 = Inr w2"
    and s3: "forM (trodes (ndD_s sim)) (fresh_lyte sim) w2 = Inr w3"
    and s4: "w' = emit (SetInitialGuess Phi_applied 0) w3"
    unfolding SetUpVariables_fresh_def by (auto simp: bindE_Inr)
  have a: "extends (fresh_call sim) w w1"
    by (rule forM_extends [OF _ s1]) (rule fresh_trode_extends)
  have b: "extends (fresh_call sim) w1 w2" by (rule fresh_lyte_extends [OF s2])
  have c: "extends (fresh_call sim) w2 w3"
    by (rule forM_extends [OF _ s3]) (rule fresh_lyte_extends)
  have d: "extends (fresh_call sim) w3 w'" unfolding s4
    by (rule extends_emit) (simp add: fresh_call_def)
  show ?thesis by (blast intro: extends_trans a b c d)
qed

section \<open>Restart calls carry the checkpoint's values\<close>

lemma restart_particle_extends:
  assumes run: "restart_particle sim dPrev l i j w = Inr w'"
  shows "extends (restart_call sim dPrev) w w'"
proof -
  from run obtain Nij t where N: "psd_num_at sim l i j = Inr Nij"
    and t: "solidType_at sim l i j = Inr t"
    and body:
      "(if t \<in> set (oneVarTypes (ndD_s sim)) then
         bindE (prev_scalar dPrev (partStr l i j @ ''cbar'')) (\<lambda>v.
         bindE (range_num Nij) (\<lambda>ks.
           forM ks (\<lambda>k w'.
               bindE (prev_at dPrev (partStr l i j @ ''c'') k) (\<lambda>x.
                 Inr (emit (SetInitialCondition (Part l i j F_c) k x) w')))
             (emit (SetInitialGuess (Part l i j F_cbar) v) w)))
       else if t \<in> set (twoVarTypes (ndD_s sim)) then
         bindE (prev_scalar dPrev (partStr l i j @ ''c1bar'')) (\<lambda>v1.
         bindE (prev_scalar dPrev (partStr l i j @ ''c2bar'')) (\<lambda>v2.
         bindE (prev_scalar dPrev (partStr l i j @ ''cbar'')) (\<lambda>v.
         bindE (range_num Nij) (\<lambda>ks.
           forM ks (\<lambda>k w'.
               bindE (prev_at dPrev (partStr l i j @ ''c1'') k) (\<lambda>x1.
               bindE (prev_at dPrev (partStr l i j @ ''c2'') k) (\<lambda>x2.
                 Inr (emit (SetInitialCondition (Part l i j F_c2) k x2)
                     (emit (SetInitialCondition (Part l i j F_c1) k x1) w')))))
             (emit (SetInitialGuess (Part l i j F_cbar) v)
             (emit (SetInitialGuess (Part l i j F_c2bar) v2)
             (emit (SetInitialGuess (Part l i j F_c1bar) v1) w)))))))
       else Inr w) = Inr w'"
    unfolding restart_particle_def by (auto simp: bindE_Inr)
  consider (one) "t \<in> set (oneVarTypes (ndD_s sim))"
    | (two) "t \<notin> set (oneVarTypes (ndD_s sim))" "t \<in> set (twoVarTypes (ndD_s sim))"
    | (none) "t \<notin> set (oneVarTypes (ndD_s sim))" "t \<notin> set (twoVarTypes (ndD_s sim))"
    by blast
  then show ?thesis
  proof cases
    case one
    have k: "kind_of sim l i j = Some SingleField" by (rule kind_of_single [OF t one])
    from body one obtain v n where v: "prev_scalar dPrev (partStr l i j @ ''cbar'') = Inr v"
      and n: "Nij = PyInt n"
      and loop: "forM [0..<nat n] (\<lambda>k w'.
               bindE (prev_at dPrev (partStr l i j @ ''c'') k) (\<lambda>x.
                 Inr (emit (SetInitialCondition (Part l i j F_c) k x) w')))
             (emit (SetInitialGuess (Part l i j F_cbar) v) w) = Inr w'"
      by (auto simp: bindE_Inr range_num_Inr)
    have g: "restart_call sim dPrev (SetInitialGuess (Part l i j F_cbar) v)"
      by (simp add: restart_call_def avg_field_ok_def k v)
    have "extends (restart_call sim dPrev) (emit (SetInitialGuess (Part l i j F_cbar) v) w) w'"
    proof (rule forM_extends [OF _ loop])
      fix x u u'
      assume x: "x \<in> set [0..<nat n]"
        and "bindE (prev_at dPrev (partStr l i j @ ''c'') x) (\<lambda>y.
                 Inr (emit (SetInitialCondition (Part l i j F_c) x y) u)) = Inr u'"
      then obtain y where y: "prev_at dPrev (partStr l i j @ ''c'') x = Inr y"
        and u': "u' = emit (SetInitialCondition (Part l i j F_c) x y) u"
        by (auto simp: bindE_Inr)
      have "restart_call sim dPrev (SetInitialCondition (Part l i j F_c) x y)"
        using x by (simp add: restart_call_def point_field_ok_def k N n y)
      then show "extends (restart_call sim dPrev) u u'" unfolding u' by (rule extends_emit)
    qed
    with g show ?thesis by (rule extends_emit_then)
  next
    case two
    have k: "kind_of sim l i j = Some TwoField" by (rule kind_of_two [OF t two])
    from body two obtain v1 v2 v n where
      v1: "prev_scalar dPrev (partStr l i j @ ''c1bar'') = Inr v1"
      and v2: "prev_scalar dPrev (partStr l i j @ ''c2bar'') = Inr v2"
      and v: "prev_scalar dPrev (partStr l i j @ ''cbar'') = Inr v"
      and n: "Nij = PyInt n"
      and loop: "forM [0..<nat n] (\<lambda>k w'.
               bindE (prev_at dPrev (partStr l i j @ ''c1'') k) (\<lambda>x1.
               bindE (prev_at dPrev (partStr l i j @ ''c2'') k) (\<lambda>x2.
                 Inr (emit (SetInitialCondition (Part l i j F_c2) k x2)
                     (emit (SetInitialCondition (Part l i j F_c1) k x1) w')))))
             (emit (SetInitialGuess (Part l i j F_cbar) v)
             (emit (SetInitialGuess (Part l i j F_c2bar) v2)
             (emit (SetInitialGuess (Part l i j F_c1bar) v1) w))) = Inr w'"
      by (auto simp: bindE_Inr range_num_Inr)
    let ?w3 = "emit (SetInitialGuess (Part l i j F_cbar) v)
             (emit (SetInitialGuess (Part l i j F_c2bar) v2)
             (emit (SetInitialGuess (Part l i j F_c1bar) v1) w))"
    have a: "extends (restart_call sim dPrev) w ?w3"
      by (rule extends_emit3) (simp_all add: restart_call_def avg_field_ok_def k v1 v2 v)
    have c: "extends (restart_call sim dPrev) ?w3 w'"
    proof (rule forM_extends [OF _ loop])
      fix x u u'
      assume x: "x \<in> set [0..<nat n]"
        and "bindE (prev_at dPrev (partStr l i j @ ''c1'') x) (\<lambda>x1.
               bindE (prev_at dPrev (partStr l i j @ ''c2'') x) (\<lambda>x2.
                 Inr (emit (SetInitialCondition (Part l i j F_c2) x x2)
                     (emit (SetInitialCondition (Part l i j F_c1) x x1) u)))) = Inr u'"
      then obtain x1 x2 where x1: "prev_at dPrev (partStr l i j @ ''c1'') x = Inr x1"
        and x2: "prev_at dPrev (partStr l i j @ ''c2'') x = Inr x2"
        and u': "u' = emit (SetInitialCondition (Part l i j F_c2) x x2)
                     (emit (SetInitialCondition (Part l i j F_c1) x x1) u)"
        by (auto simp: bindE_Inr)
      show "extends (restart_call sim dPrev) u u'" unfolding u'
        using x by (intro extends_emit2) (simp_all add: restart_call_def point_field_ok_def k N n x1 x2)
    qed
    show ?thesis by (rule extends_trans [OF a c])
  next
    case none
    with body have "w' = w" by simp
    then show ?thesis by (simp add: extends_refl)
  qed
qed

lemma restart_volume_extends:
  assumes run: "restart_volume sim dPrev l i w = Inr w'"
  shows "extends (restart_call sim dPrev) w w'"
proof -
  from run obtain r p np where r: "prev_at dPrev (''R_Vp_'' @ l) i = Inr r"
    and p: "prev_at dPrev (''phi_bulk_'' @ l) i = Inr p"
    and loop: "forM (py_range np) (restart_particle sim dPrev l i)
         (emit (SetInitialGuessAt (Phi_bulk l) i p)
         (emit (SetInitialGuessAt (R_Vp l) i r) w)) = Inr w'"
    unfolding restart_volume_def by (auto simp: bindE_Inr)
  have a: "extends (restart_call sim dPrev) w
         (emit (SetInitialGuessAt (Phi_bulk l) i p)
         (emit (SetInitialGuessAt (R_Vp l) i r) w))"
    using r p by (intro extends_emit2) (simp_all add: restart_call_def)
  have b: "extends (restart_call sim dPrev)
         (emit (SetInitialGuessAt (Phi_bulk l) i p)
         (emit (SetInitialGuessAt (R_Vp l) i r) w)) w'"
    by (rule forM_extends [OF _ loop]) (rule restart_particle_extends)
  show ?thesis by (rule extends_trans [OF a b])
qed

lemma restart_trode_extends:
  assumes run: "restart_trode sim dPrev l w = Inr w'"
  shows "extends (restart_call sim dPrev) w w'"
proof -
  from run obtain f nv where f: "prev_scalar dPrev (''ffrac_'' @ l) = Inr f"
    and loop: "forM (py_range nv) (restart_volume sim dPrev l)
                 (emit (SetInitialGuess (Ffrac l) f) w) = Inr w'"
    unfolding restart_trode_def by (auto simp: bindE_Inr)
  have a: "restart_call sim dPrev (SetInitialGuess (Ffrac l) f)"
    using f by (simp add: restart_call_def)
  have b: "extends (restart_call sim dPrev) (emit (SetInitialGuess (Ffrac l) f) w) w'"
    by (rule forM_extends [OF _ loop]) (rule restart_volume_extends)
  show ?thesis by (rule extends_emit_then [OF a b])
qed

lemma restart_lyte_extends:
  assumes run: "restart_lyte sim dPrev l w = Inr w'"
  shows "extends (restart_call sim dPrev) w w'"
proof -
  from run obtain nv where
    loop: "forM (py_range nv) (\<lambda>i w'.
           bindE (prev_at dPrev (''c_lyte_'' @ l) i) (\<lambda>c.
           bindE (prev_at dPrev (''phi_lyte_'' @ l) i) (\<lambda>p.
             Inr (emit (SetInitialGuessAt (Phi_lyte l) i p)
                 (emit (SetInitialCondition (C_lyte l) i c) w'))))) w = Inr w'"
    unfolding restart_lyte_def by (auto simp: bindE_Inr)
  show ?thesis
  proof (rule forM_extends [OF _ loop])
    fix x u u'
    assume "bindE (prev_at dPrev (''c_lyte_'' @ l) x) (\<lambda>c.
           bindE (prev_at dPrev (''phi_lyte_'' @ l) x) (\<lambda>p.
             Inr (emit (SetInitialGuessAt (Phi_lyte l) x p)
                 (emit (SetInitialCondition (C_lyte l) x c) u)))) = Inr u'"
    then obtain c p where c: "prev_at dPrev (''c_lyte_'' @ l) x = Inr c"
      and p: "prev_at dPrev (''phi_lyte_'' @ l) x = Inr p"
      and u': "u' = emit (SetInitialGuessAt (Phi_lyte l) x p)
                 (emit (SetInitialCondition (C_lyte l) x c) u)"
      by (auto simp: bindE_Inr)
    show "extends (restart_call sim dPrev) u u'" unfolding u'
      using c p by (intro extends_emit2) (simp_all add: restart_call_def)
  qed
qed

lemma SetUpVariables_restart_extends:
  assumes run: "SetUpVariables_restart sim dPrev w = Inr w'"
  shows "extends (restart_call sim dPrev) w w'"
proof -
  from run obtain w1 w2 w3 p where
    s1: "forM (trodes (ndD_s sim)) (restart_trode sim dPrev) w = Inr w1"
    and s2: "restart_lyte sim dPrev ''s'' w1 = Inr w2"
    and s3: "forM (trodes (ndD_s sim)) (restart_lyte sim dPrev) w2 = Inr w3"
    and p: "prev_scalar dPrev ''phi_applied'' = Inr p"
    and s4: "w' = emit (SetInitialGuess Phi_applied p) w3"
    unfolding SetUpVariables_restart_def by (auto simp: bindE_Inr)
  have a: "extends (restart_call sim dPrev) w w1"
    by (rule forM_extends [OF _ s1]) (rule restart_trode_extends)
  have b: "extends (restart_call sim dPrev) w1 w2" by (rule restart_lyte_extends [OF s2])
  have c: "extends (restart_call sim dPrev) w2 w3"
    by (rule forM_extends [OF _ s3]) (rule restart_lyte_extends)
  have d: "extends (restart_call sim dPrev) w3 w'" unfolding s4
    by (rule extends_emit) (simp add: restart_call_def p)
  show ?thesis by (blast intro: extends_trans a b c d)
qed

lemma calls_of_Inr: "calls_of r = Inr cs \<Longrightarrow> \<exists>w'. r = Inr w' \<and> calls w' = cs"
  by (cases r) (simp_all add: calls_of_def)

lemma fresh_call_not_dummy: "fresh_call sim c \<Longrightarrow> call_var c \<noteq> Some DummyVar"
  by (auto simp: fresh_call_def split: call.splits var.splits)

lemma restart_call_not_dummy: "restart_call sim d c \<Longrightarrow> call_var c \<noteq> Some DummyVar"
  by (auto simp: restart_call_def split: call.splits var.splits)

lemma SetUpVariables_Inr:
  "SetUpVariables sim w = Inr w' \<longleftrightarrow>
     (\<exists>w1. w' = emit (AssignValue DummyVar 0) w1 \<and>
        (if prevDir (ndD_s sim) = ''false'' then SetUpVariables_fresh sim w = Inr w1
         else \<exists>d. dataPrev sim = Some d \<and> SetUpVariables_restart sim d w = Inr w1))"
  unfolding SetUpVariables_def
  by (auto simp: bindE_Inr split: option.splits)

lemma extends_then_emit:
  assumes "extends Q w w1"
  shows "\<exists>ev. calls (emit c w1) = calls w @ ev @ [c] \<and> list_all Q ev"
  using assms unfolding extends_def emit_def by auto

section \<open>The marker variable\<close>

text \<open>
  C10. Whenever \<open>SetUpVariables\<close> returns normally, in either mode, the calls it has made
  end with the assignment of \<open>0\<close> to \<open>dummyVar\<close>, and no call before that one concerns
  \<open>dummyVar\<close>.
\<close>

theorem dummyVar_assigned_last:
  assumes "SetUpVariables sim w = Inr w'"
  shows "\<exists>ev. calls w' = calls w @ ev @ [AssignValue DummyVar 0] \<and>
           list_all (\<lambda>c. call_var c \<noteq> Some DummyVar) ev"
proof -
  from assms obtain w1 where w': "w' = emit (AssignValue DummyVar 0) w1"
    and mode: "if prevDir (ndD_s sim) = ''false'' then SetUpVariables_fresh sim w = Inr w1
         else \<exists>d. dataPrev sim = Some d \<and> SetUpVariables_restart sim d w = Inr w1"
    unfolding SetUpVariables_Inr by blast
  have "extends (\<lambda>c. call_var c \<noteq> Some DummyVar) w w1"
  proof (cases "prevDir (ndD_s sim) = ''false''")
    case True
    with mode have "extends (fresh_call sim) w w1"
      by (simp add: SetUpVariables_fresh_extends)
    then show ?thesis by (rule extends_weaken) (rule fresh_call_not_dummy)
  next
    case False
    with mode obtain d where "SetUpVariables_restart sim d w = Inr w1" by auto
    then have "extends (restart_call sim d) w w1" by (rule SetUpVariables_restart_extends)
    then show ?thesis by (rule extends_weaken) (rule restart_call_not_dummy)
  qed
  then show ?thesis unfolding w' by (rule extends_then_emit)
qed

theorem dummyVar_assigned_last_witness:
  "(\<exists>w'. SetUpVariables ex_sim ex_world = Inr w' \<and>
      (\<exists>ev. calls w' = calls ex_world @ ev @ [AssignValue DummyVar 0] \<and>
         list_all (\<lambda>c. call_var c \<noteq> Some DummyVar) ev)) \<and>
   (\<exists>w'. SetUpVariables ex_sim_none ex_world = Inr w' \<and>
      (\<exists>ev. calls w' = calls ex_world @ ev @ [AssignValue DummyVar 0] \<and>
         list_all (\<lambda>c. call_var c \<noteq> Some DummyVar) ev))"
proof -
  obtain w1 where w1: "SetUpVariables ex_sim ex_world = Inr w1"
    using calls_of_Inr [OF ex_fresh_calls] by blast
  obtain w2 where w2: "SetUpVariables ex_sim_none ex_world = Inr w2"
    using calls_of_Inr [OF ex_restart_calls] by blast
  show ?thesis
    using dummyVar_assigned_last [OF w1] dummyVar_assigned_last [OF w2] w1 w2 by simp
qed

section \<open>The two modes of state initialization\<close>

text \<open>
  C1, as amended. On an object the constructor has built, \<open>SetUpVariables\<close> runs exactly
  one of its two branches: the fresh-start branch when the restart-directory field is the
  string \<open>false\<close>, and then no checkpoint was loaded; otherwise the restart branch, on the
  checkpoint the constructor loaded from that directory. Either branch is followed by the
  assignment of \<open>dummyVar\<close>.
\<close>

theorem mode_selected_by_prevDir:
  assumes "SimPETS_init loadmat (Some s) (Some e) ts = Inr sim"
  shows "prevDir (ndD_s sim) = prevDir s \<and>
         (if prevDir s = ''false''
          then dataPrev sim = None \<and>
               SetUpVariables sim w =
                 bindE (SetUpVariables_fresh sim w) (\<lambda>w'. Inr (emit (AssignValue DummyVar 0) w'))
          else dataPrev sim = loadmat (prevDir s) \<and>
               (\<exists>d. dataPrev sim = Some d \<and>
                  SetUpVariables sim w =
                    bindE (SetUpVariables_restart sim d w)
                      (\<lambda>w'. Inr (emit (AssignValue DummyVar 0) w'))))"
  using assms unfolding SimPETS_init_def SetUpVariables_def
  by (auto simp: Let_def bindE_Inr split: if_splits option.splits)

lemma ex_fresh_none_calls:
  "calls_of (SetUpVariables_fresh ex_sim_none ex_world) =
     Inr [SetInitialGuess (Ffrac ''c'') (1 / 2),
      SetInitialGuessAt (R_Vp ''c'') 0 0,
      SetInitialGuessAt (Phi_bulk ''c'') 0 3,
      SetInitialGuess (Part ''c'' 0 0 F_cbar) (1 / 2),
      SetInitialCondition (Part ''c'' 0 0 F_c) 0 (1 / 2),
      SetInitialCondition (Part ''c'' 0 0 F_c) 1 (1 / 2),
      SetInitialGuess (Part ''c'' 0 1 F_c1bar) (1 / 2),
      SetInitialGuess (Part ''c'' 0 1 F_c2bar) (1 / 2),
      SetInitialGuess (Part ''c'' 0 1 F_cbar) (1 / 2),
      SetInitialCondition (Part ''c'' 0 1 F_c1) 0 (79997 / 160000),
      SetInitialCondition (Part ''c'' 0 1 F_c2) 0 (1 / 2),
      SetInitialCondition (Part ''c'' 0 1 F_c1) 1 (79997 / 160000),
      SetInitialCondition (Part ''c'' 0 1 F_c2) 1 (1 / 2),
      SetInitialCondition (Part ''c'' 0 1 F_c1) 2 (79997 / 160000),
      SetInitialCondition (Part ''c'' 0 1 F_c2) 2 (1 / 2),
      SetInitialCondition (Part ''c'' 0 1 F_c1) 3 (80009 / 160000),
      SetInitialCondition (Part ''c'' 0 1 F_c2) 3 (1 / 2),
      SetInitialCondition (C_lyte ''s'') 0 1,
      SetInitialGuessAt (Phi_lyte ''s'') 0 0,
      SetInitialCondition (C_lyte ''c'') 0 1,
      SetInitialGuessAt (Phi_lyte ''c'') 0 0, SetInitialGuess Phi_applied 0]"
  by (simp add: ex_sim_none_def ex_prev_def ex_cfg_def ex_cfg_e_def ex_world_def eval_defs)

text \<open>
  With the restart-directory field set to the string \<open>none\<close> the constructor looks for a
  checkpoint in a directory of that name, and \<open>SetUpVariables\<close> restores the checkpoint's
  values where fresh-start mode would have set the configured ones.
\<close>

theorem mode_selected_by_none_counterexample:
  "prevDir (ex_cfg\<lparr>prevDir := ''none''\<rparr>) = ''none'' \<and>
   SimPETS_init Map.empty (Some (ex_cfg\<lparr>prevDir := ''none''\<rparr>)) (Some ex_cfg_e) (Some 1)
     = Inl IOError \<and>
   SimPETS_init ex_loadmat (Some (ex_cfg\<lparr>prevDir := ''none''\<rparr>)) (Some ex_cfg_e) (Some 1)
     = Inr ex_sim_none \<and>
   calls_of (SetUpVariables ex_sim_none ex_world) =
     Inr [SetInitialGuess (Ffrac ''c'') (3 / 5),
      SetInitialGuessAt (R_Vp ''c'') 0 (1 / 100),
      SetInitialGuessAt (Phi_bulk ''c'') 0 (33 / 10),
      SetInitialGuess (Part ''c'' 0 0 F_cbar) (61 / 100),
      SetInitialCondition (Part ''c'' 0 0 F_c) 0 (3 / 5),
      SetInitialCondition (Part ''c'' 0 0 F_c) 1 (31 / 50),
      SetInitialGuess (Part ''c'' 0 1 F_c1bar) (29 / 50),
      SetInitialGuess (Part ''c'' 0 1 F_c2bar) (3 / 5),
      SetInitialGuess (Part ''c'' 0 1 F_cbar) (59 / 100),
      SetInitialCondition (Part ''c'' 0 1 F_c1) 0 (11 / 20),
      SetInitialCondition (Part ''c'' 0 1 F_c2) 0 (57 / 100),
      SetInitialCondition (Part ''c'' 0 1 F_c1) 1 (57 / 100),
      SetInitialCondition (Part ''c'' 0 1 F_c2) 1 (59 / 100),
      SetInitialCondition (Part ''c'' 0 1 F_c1) 2 (59 / 100),
      SetInitialCondition (Part ''c'' 0 1 F_c2) 2 (61 / 100),
      SetInitialCondition (Part ''c'' 0 1 F_c1) 3 (61 / 100),
      SetInitialCondition (Part ''c'' 0 1 F_c2) 3 (63 / 100),
      SetInitialCondition (C_lyte ''s'') 0 (9 / 10),
      SetInitialGuessAt (Phi_lyte ''s'') 0 (1 / 5),
      SetInitialCondition (C_lyte ''c'') 0 (4 / 5),
      SetInitialGuessAt (Phi_lyte ''c'') 0 (3 / 10),
      SetInitialGuess Phi_applied (17 / 5), AssignValue DummyVar 0] \<and>
   hd (projr (calls_of (SetUpVariables_fresh ex_sim_none ex_world))) =
     SetInitialGuess (Ffrac ''c'') (1 / 2)"
  unfolding ex_init_none ex_restart_calls ex_fresh_none_calls
  by (simp add: SimPETS_init_def ex_cfg_def)

theorem mode_selected_by_prevDir_witness:
  "dataPrev ex_sim = None \<and>
   SetUpVariables ex_sim ex_world =
     bindE (SetUpVariables_fresh ex_sim ex_world) (\<lambda>w'. Inr (emit (AssignValue DummyVar 0) w')) \<and>
   dataPrev ex_sim_none = Some ex_prev \<and>
   SetUpVariables ex_sim_none ex_world =
     bindE (SetUpVariables_restart ex_sim_none ex_prev ex_world)
       (\<lambda>w'. Inr (emit (AssignValue DummyVar 0) w'))"
  using mode_selected_by_prevDir [OF ex_init, of ex_world]
    mode_selected_by_prevDir [OF ex_init_none, of ex_world]
  by (auto simp: ex_cfg_def ex_loadmat_def)

section \<open>Restart mode draws no random number\<close>

lemma forM_rand:
  assumes "forM xs body w = Inr w'"
    and "\<And>x v v'. body x v = Inr v' \<Longrightarrow> rand_src v' = rand_src v"
  shows "rand_src w' = rand_src w"
  using assms(1)
proof (induction xs arbitrary: w)
  case Nil
  then show ?case by simp
next
  case (Cons x xs)
  then obtain v where v: "body x w = Inr v" "forM xs body v = Inr w'"
    by (auto simp: bindE_Inr)
  show ?case using Cons.IH [OF v(2)] assms(2) [OF v(1)] by simp
qed

lemma rand_src_emit [simp]: "rand_src (emit c w) = rand_src w"
  by (simp add: emit_def)

lemma restart_particle_rand:
  "restart_particle sim d l i j w = Inr w' \<Longrightarrow> rand_src w' = rand_src w"
  unfolding restart_particle_def
  apply (auto simp: bindE_Inr split: if_splits)
   apply (drule forM_rand; auto simp: bindE_Inr)+
  done

lemma restart_volume_rand:
  "restart_volume sim d l i w = Inr w' \<Longrightarrow> rand_src w' = rand_src w"
  unfolding restart_volume_def
  apply (auto simp: bindE_Inr)
  apply (drule forM_rand; auto simp: restart_particle_rand)
  done

lemma restart_trode_rand:
  "restart_trode sim d l w = Inr w' \<Longrightarrow> rand_src w' = rand_src w"
  unfolding restart_trode_def
  apply (auto simp: bindE_Inr)
  apply (drule forM_rand; auto simp: restart_volume_rand)
  done

lemma restart_lyte_rand:
  "restart_lyte sim d l w = Inr w' \<Longrightarrow> rand_src w' = rand_src w"
  unfolding restart_lyte_def
  apply (auto simp: bindE_Inr)
  apply (drule forM_rand; auto simp: bindE_Inr)
  done

lemma SetUpVariables_restart_rand:
  assumes "SetUpVariables_restart sim d w = Inr w'"
  shows "rand_src w' = rand_src w"
proof -
  from assms obtain w1 w2 w3 p where
    s1: "forM (trodes (ndD_s sim)) (restart_trode sim d) w = Inr w1"
    and s2: "restart_lyte sim d ''s'' w1 = Inr w2"
    and s3: "forM (trodes (ndD_s sim)) (restart_lyte sim d) w2 = Inr w3"
    and s4: "w' = emit (SetInitialGuess Phi_applied p) w3"
    unfolding SetUpVariables_restart_def by (auto simp: bindE_Inr)
  have "rand_src w1 = rand_src w" by (rule forM_rand [OF s1]) (rule restart_trode_rand)
  moreover have "rand_src w2 = rand_src w1" by (rule restart_lyte_rand [OF s2])
  moreover have "rand_src w3 = rand_src w2" by (rule forM_rand [OF s3]) (rule restart_lyte_rand)
  ultimately show ?thesis by (simp add: s4)
qed

section \<open>Calls on particle variables\<close>

lemma fresh_call_part_kind:
  "fresh_call sim c \<Longrightarrow> call_var c = Some (Part l i j f) \<Longrightarrow> kind_of sim l i j \<noteq> None"
  by (auto simp: fresh_call_def avg_field_ok_def point_field_ok_def
      split: call.splits var.splits option.splits)

lemma restart_call_part_kind:
  "restart_call sim d c \<Longrightarrow> call_var c = Some (Part l i j f) \<Longrightarrow> kind_of sim l i j \<noteq> None"
  by (auto simp: restart_call_def avg_field_ok_def point_field_ok_def
      split: call.splits var.splits option.splits)

lemma extends_calls:
  "extends Q w w' \<Longrightarrow> \<exists>ev. calls w' = calls w @ ev \<and> list_all Q ev"
  unfolding extends_def by blast

lemma SetUpVariables_extends:
  assumes "SetUpVariables sim w = Inr w'"
  shows "extends (\<lambda>c. c = AssignValue DummyVar 0 \<or> fresh_call sim c \<or>
            (\<exists>d. dataPrev sim = Some d \<and> restart_call sim d c)) w w'"
    (is "extends ?Q w w'")
proof -
  from assms obtain w1 where w': "w' = emit (AssignValue DummyVar 0) w1"
    and mode: "if prevDir (ndD_s sim) = ''false'' then SetUpVariables_fresh sim w = Inr w1
         else \<exists>d. dataPrev sim = Some d \<and> SetUpVariables_restart sim d w = Inr w1"
    unfolding SetUpVariables_Inr by blast
  have a: "extends ?Q w w1"
  proof (cases "prevDir (ndD_s sim) = ''false''")
    case True
    with mode have "extends (fresh_call sim) w w1"
      by (simp add: SetUpVariables_fresh_extends)
    then show ?thesis by (rule extends_weaken) simp
  next
    case False
    with mode obtain d where d: "dataPrev sim = Some d" "SetUpVariables_restart sim d w = Inr w1"
      by auto
    have "extends (restart_call sim d) w w1" by (rule SetUpVariables_restart_extends [OF d(2)])
    then show ?thesis by (rule extends_weaken) (simp add: d(1))
  qed
  have b: "extends ?Q w1 w'" unfolding w' by (rule extends_emit) simp
  show ?thesis by (rule extends_trans [OF a b])
qed

section \<open>A tag of neither kind-set\<close>

text \<open>
  C7, as amended. A particle whose solid-type tag belongs to neither kind-set is skipped
  in both modes: its step of the traversal returns normally and leaves the world as it
  was, and no call that \<open>SetUpVariables\<close> makes concerns a variable of that particle.
\<close>

theorem unknown_solid_type_skipped:
  assumes "psd_num_at sim l i j = Inr Nij" and "solidType_at sim l i j = Inr t"
    and "t \<notin> set (oneVarTypes (ndD_s sim))" and "t \<notin> set (twoVarTypes (ndD_s sim))"
    and "SetUpVariables sim w0 = Inr w'"
  shows "fresh_particle sim l cs i j w = Inr w \<and>
         restart_particle sim d l i j w = Inr w \<and>
         (\<exists>ev. calls w' = calls w0 @ ev \<and>
            list_all (\<lambda>c. \<forall>f. call_var c \<noteq> Some (Part l i j f)) ev)"
proof -
  have k: "kind_of sim l i j = None" by (rule kind_of_none [OF assms(2,3,4)])
  have a: "fresh_particle sim l cs i j w = Inr w"
    using assms(1-4) by (simp add: fresh_particle_def)
  have b: "restart_particle sim d l i j w = Inr w"
    using assms(1-4) by (simp add: restart_particle_def)
  have "extends (\<lambda>c. \<forall>f. call_var c \<noteq> Some (Part l i j f)) w0 w'"
  proof (rule extends_weaken [OF SetUpVariables_extends [OF assms(5)]])
    fix c
    assume c: "c = AssignValue DummyVar 0 \<or> fresh_call sim c \<or>
            (\<exists>d. dataPrev sim = Some d \<and> restart_call sim d c)"
    show "\<forall>f. call_var c \<noteq> Some (Part l i j f)"
    proof (intro allI notI)
      fix f
      assume v: "call_var c = Some (Part l i j f)"
      then have "c \<noteq> AssignValue DummyVar 0" by auto
      with c consider "fresh_call sim c" | d where "restart_call sim d c" by blast
      then have "kind_of sim l i j \<noteq> None"
        by cases (rule fresh_call_part_kind [OF _ v], assumption,
                  rule restart_call_part_kind [OF _ v], assumption)
      with k show False by simp
    qed
  qed
  then show ?thesis using a b extends_calls by blast
qed

lemma ex_unknown_calls:
  "calls_of (SetUpVariables ex_sim_unknown ex_world) =
     Inr [SetInitialGuess (Ffrac ''c'') (1 / 2),
      SetInitialGuessAt (R_Vp ''c'') 0 0,
      SetInitialGuessAt (Phi_bulk ''c'') 0 3,
      SetInitialGuess (Part ''c'' 0 0 F_cbar) (1 / 2),
      SetInitialCondition (Part ''c'' 0 0 F_c) 0 (1 / 2),
      SetInitialCondition (Part ''c'' 0 0 F_c) 1 (1 / 2),
      SetInitialCondition (C_lyte ''s'') 0 1,
      SetInitialGuessAt (Phi_lyte ''s'') 0 0,
      SetInitialCondition (C_lyte ''c'') 0 1,
      SetInitialGuessAt (Phi_lyte ''c'') 0 0, SetInitialGuess Phi_applied 0,
      AssignValue DummyVar 0]"
  by (simp add: ex_sim_unknown_def ex_sim_def ex_cfg_def ex_world_def eval_defs)

lemma ex_unknown_lookups:
  "psd_num_at ex_sim_unknown ''c'' 0 1 = Inr (PyInt 4)"
  "solidType_at ex_sim_unknown ''c'' 0 1 = Inr ''graphite''"
  "''graphite'' \<notin> set (oneVarTypes (ndD_s ex_sim_unknown))"
  "''graphite'' \<notin> set (twoVarTypes (ndD_s ex_sim_unknown))"
  by (simp_all add: ex_sim_unknown_def ex_sim_def ex_cfg_def eval_defs)

text \<open>
  The second particle of the example carries the tag \<open>graphite\<close>, which is in neither
  kind-set: initialization returns normally, with no call for that particle.
\<close>

theorem unknown_solid_type_counterexample:
  "solidType_at ex_sim_unknown ''c'' 0 1 = Inr ''graphite'' \<and>
   ''graphite'' \<notin> set (oneVarTypes (ndD_s ex_sim_unknown)) \<and>
   ''graphite'' \<notin> set (twoVarTypes (ndD_s ex_sim_unknown)) \<and>
   calls_of (SetUpVariables ex_sim_unknown ex_world) =
     Inr [SetInitialGuess (Ffrac ''c'') (1 / 2),
      SetInitialGuessAt (R_Vp ''c'') 0 0,
      SetInitialGuessAt (Phi_bulk ''c'') 0 3,
      SetInitialGuess (Part ''c'' 0 0 F_cbar) (1 / 2),
      SetInitialCondition (Part ''c'' 0 0 F_c) 0 (1 / 2),
      SetInitialCondition (Part ''c'' 0 0 F_c) 1 (1 / 2),
      SetInitialCondition (C_lyte ''s'') 0 1,
      SetInitialGuessAt (Phi_lyte ''s'') 0 0,
      SetInitialCondition (C_lyte ''c'') 0 1,
      SetInitialGuessAt (Phi_lyte ''c'') 0 0, SetInitialGuess Phi_applied 0,
      AssignValue DummyVar 0]"
  using ex_unknown_lookups ex_unknown_calls by simp

theorem unknown_solid_type_skipped_witness:
  "fresh_particle ex_sim_unknown ''c'' (1/2) 0 1 ex_world = Inr ex_world \<and>
   restart_particle ex_sim_unknown ex_prev ''c'' 0 1 ex_world = Inr ex_world \<and>
   (\<exists>w'. SetUpVariables ex_sim_unknown ex_world = Inr w' \<and>
      (\<exists>ev. calls w' = calls ex_world @ ev \<and>
         list_all (\<lambda>c. \<forall>f. call_var c \<noteq> Some (Part ''c'' 0 1 f)) ev))"
proof -
  obtain w' where w': "SetUpVariables ex_sim_unknown ex_world = Inr w'"
    using calls_of_Inr [OF ex_unknown_calls] by blast
  show ?thesis
    using unknown_solid_type_skipped [OF ex_unknown_lookups w', of "1/2" ex_world ex_prev] w'
    by simp
qed

section \<open>Domain allocation: the index spaces and their sizes\<close>

lemma extends_mem:
  assumes "extends Q w v" and "extends R v' w'" and "calls v' = calls v @ new" and "c \<in> set new"
    and "calls w' = calls w @ ev"
  shows "c \<in> set ev"
proof -
  from assms(1) obtain a where a: "calls v = calls w @ a" unfolding extends_def by blast
  from assms(2) obtain b where b: "calls w' = calls v' @ b" unfolding extends_def by blast
  have "calls w' = calls w @ (a @ new @ b)" using a b assms(3) by simp
  with assms(5) have "ev = a @ new @ b" by simp
  with assms(4) show ?thesis by simp
qed

lemma py_range_mem: "i \<in> set (py_range n) \<longleftrightarrow> i < nat n"
  by (simp add: py_range_def)

lemma domains_particle_extends:
  assumes "domains_particle sim l i j w = Inr w'" and "l \<in> set (trodes (ndD_s sim))"
  shows "extends (domain_call sim) w w'"
proof -
  from assms(1) obtain x where x: "psd_num_at sim l i j = Inr x"
    and w': "w' = emit (CreateArray (PartDmn l i j) (py_int x)) w"
    unfolding domains_particle_def by (auto simp: bindE_Inr)
  show ?thesis unfolding w'
    by (rule extends_emit) (simp add: domain_call_def assms(2) x)
qed

lemma domains_row_extends:
  assumes "forM xs (domains_particle sim l i) w = Inr w'" and "l \<in> set (trodes (ndD_s sim))"
  shows "extends (domain_call sim) w w'"
proof (rule forM_extends [OF _ assms(1)])
  fix x v v'
  assume "domains_particle sim l i x v = Inr v'"
  then show "extends (domain_call sim) v v'"
    by (rule domains_particle_extends [OF _ assms(2)])
qed

lemma domains_trode_extends:
  assumes "domains_trode sim l w = Inr w'" and l: "l \<in> set (trodes (ndD_s sim))"
  shows "extends (domain_call sim) w w'"
proof -
  from assms(1) obtain nv np where nv: "Nvol (ndD_s sim) l = Some nv"
    and np: "Npart (ndD_s sim) l = Some np"
    and loop: "forM (py_range nv) (\<lambda>i. forM (py_range np) (domains_particle sim l i))
         (emit (CreateArray (DmnPart l) np) (emit (CreateArray (DmnCell l) nv) w)) = Inr w'"
    unfolding domains_trode_def by (auto simp: bindE_Inr getitem_Inr)
  have a: "extends (domain_call sim) w
      (emit (CreateArray (DmnPart l) np) (emit (CreateArray (DmnCell l) nv) w))"
    by (rule extends_emit2) (simp_all add: domain_call_def l nv np)
  have b: "extends (domain_call sim)
      (emit (CreateArray (DmnPart l) np) (emit (CreateArray (DmnCell l) nv) w)) w'"
  proof (rule forM_extends [OF _ loop])
    fix x v v'
    assume "forM (py_range np) (domains_particle sim l x) v = Inr v'"
    then show "extends (domain_call sim) v v'"
      by (rule domains_row_extends [OF _ l])
  qed
  show ?thesis by (rule extends_trans [OF a b])
qed

lemma domains_trode_covers:
  assumes run: "domains_trode sim l w = Inr w'" and l: "l \<in> set (trodes (ndD_s sim))"
  shows "\<exists>nv np new. Nvol (ndD_s sim) l = Some nv \<and> Npart (ndD_s sim) l = Some np \<and>
           calls w' = calls w @ new \<and>
           CreateArray (DmnCell l) nv \<in> set new \<and> CreateArray (DmnPart l) np \<in> set new \<and>
           (\<forall>i<nat nv. \<forall>j<nat np. \<exists>x. psd_num_at sim l i j = Inr x \<and>
               CreateArray (PartDmn l i j) (py_int x) \<in> set new)"
proof -
  let ?Q = "domain_call sim"
  from run obtain nv np where nv: "Nvol (ndD_s sim) l = Some nv"
    and np: "Npart (ndD_s sim) l = Some np"
    and loop: "forM (py_range nv) (\<lambda>i. forM (py_range np) (domains_particle sim l i))
         (emit (CreateArray (DmnPart l) np) (emit (CreateArray (DmnCell l) nv) w)) = Inr w'"
    unfolding domains_trode_def by (auto simp: bindE_Inr getitem_Inr)
  let ?w2 = "emit (CreateArray (DmnPart l) np) (emit (CreateArray (DmnCell l) nv) w)"
  have inner: "\<And>x v v'. forM (py_range np) (domains_particle sim l x) v = Inr v' \<Longrightarrow>
      extends ?Q v v'"
    by (rule domains_row_extends [OF _ l])
  have rest: "extends ?Q ?w2 w'" by (rule forM_extends [OF _ loop]) (rule inner)
  then obtain b where b: "calls w' = calls ?w2 @ b" unfolding extends_def by blast
  define new where "new = [CreateArray (DmnCell l) nv, CreateArray (DmnPart l) np] @ b"
  have new: "calls w' = calls w @ new" using b by (simp add: new_def emit_def)
  have part: "\<exists>x. psd_num_at sim l i j = Inr x \<and>
               CreateArray (PartDmn l i j) (py_int x) \<in> set new"
    if i: "i < nat nv" and j: "j < nat np" for i j
  proof -
    from i have "i \<in> set (py_range nv)" by (simp add: py_range_mem)
    from forM_step [of "py_range nv" _ ?Q, OF _ loop this] inner
    obtain v1 v1' where v1: "extends ?Q ?w2 v1"
      "forM (py_range np) (domains_particle sim l i) v1 = Inr v1'" "extends ?Q v1' w'"
      by blast
    from j have "j \<in> set (py_range np)" by (simp add: py_range_mem)
    from forM_step [of "py_range np" _ ?Q, OF _ v1(2) this] domains_particle_extends [OF _ l]
    obtain v2 v2' where v2: "extends ?Q v1 v2"
      "domains_particle sim l i j v2 = Inr v2'" "extends ?Q v2' v1'"
      by blast
    from v2(2) obtain x where x: "psd_num_at sim l i j = Inr x"
      and v2': "v2' = emit (CreateArray (PartDmn l i j) (py_int x)) v2"
      unfolding domains_particle_def by (auto simp: bindE_Inr)
    have a: "extends ?Q w v2"
      by (rule extends_trans [OF _ extends_trans [OF v1(1) v2(1)]])
         (rule extends_emit2, simp_all add: domain_call_def l nv np)
    have c: "extends ?Q v2' w'" by (rule extends_trans [OF v2(3) v1(3)])
    have "CreateArray (PartDmn l i j) (py_int x) \<in> set new"
      by (rule extends_mem [OF a c _ _ new, of "[CreateArray (PartDmn l i j) (py_int x)]"])
         (simp_all add: v2' emit_def)
    with x show ?thesis by blast
  qed
  show ?thesis using nv np new part by (auto simp: new_def)
qed

text \<open>
  C8. Whenever \<open>SetUpParametersAndDomains\<close> returns normally, on a configuration whose
  regions do not include the separator label, the calls it has made are \<open>CreateArray\<close>
  calls with the sizes of the configuration: one for the separator's index space if
  and only if its volume count is at least \<open>1\<close>; for each present region one of size
  \<open>Nvol\<close> for its volumes and one of size \<open>Npart\<close> for its particles; and for each volume
  and particle of a region one whose size is the particle's discretization count, a
  float count being truncated towards zero.
\<close>

theorem domain_allocation:
  assumes run: "SetUpParametersAndDomains sim w = Inr w'"
    and sep: "''s'' \<notin> set (trodes (ndD_s sim))"
  shows "\<exists>ns ev. Nvol (ndD_s sim) ''s'' = Some ns \<and> calls w' = calls w @ ev \<and>
           list_all (domain_call sim) ev \<and>
           ((\<exists>n. CreateArray (DmnCell ''s'') n \<in> set ev) \<longleftrightarrow> ns \<ge> 1) \<and>
           (\<forall>l\<in>set (trodes (ndD_s sim)). \<exists>nv np.
              Nvol (ndD_s sim) l = Some nv \<and> Npart (ndD_s sim) l = Some np \<and>
              CreateArray (DmnCell l) nv \<in> set ev \<and> CreateArray (DmnPart l) np \<in> set ev \<and>
              (\<forall>i<nat nv. \<forall>j<nat np. \<exists>x. psd_num_at sim l i j = Inr x \<and>
                  CreateArray (PartDmn l i j) (py_int x) \<in> set ev))"
proof -
  let ?Q = "domain_call sim"
  let ?w0 = "\<lambda>ns. if ns \<ge> 1 then emit (CreateArray (DmnCell ''s'') ns) w else w"
  from run obtain ns where ns: "Nvol (ndD_s sim) ''s'' = Some ns"
    and loop: "forM (trodes (ndD_s sim)) (domains_trode sim) (?w0 ns) = Inr w'"
    unfolding SetUpParametersAndDomains_def by (auto simp: bindE_Inr getitem_Inr)
  have a: "extends ?Q w (?w0 ns)"
    by (auto intro!: extends_emit extends_refl simp: domain_call_def ns)
  have b: "extends ?Q (?w0 ns) w'"
    by (rule forM_extends [OF _ loop]) (rule domains_trode_extends)
  have "extends ?Q w w'" by (rule extends_trans [OF a b])
  then obtain ev where ev: "calls w' = calls w @ ev" "list_all ?Q ev"
    unfolding extends_def by blast
  from b obtain tl where tl: "calls w' = calls (?w0 ns) @ tl" unfolding extends_def by blast
  have sep_iff: "(\<exists>n. CreateArray (DmnCell ''s'') n \<in> set ev) \<longleftrightarrow> ns \<ge> 1"
  proof
    assume "\<exists>n. CreateArray (DmnCell ''s'') n \<in> set ev"
    then obtain n where "CreateArray (DmnCell ''s'') n \<in> set ev" by blast
    with ev(2) have "domain_call sim (CreateArray (DmnCell ''s'') n)"
      by (simp add: list_all_iff)
    then show "ns \<ge> 1" using sep ns by (simp add: domain_call_def)
  next
    assume "ns \<ge> 1"
    then have "calls w' = calls w @ CreateArray (DmnCell ''s'') ns # tl"
      using tl by (simp add: emit_def)
    with ev(1) have "ev = CreateArray (DmnCell ''s'') ns # tl" by simp
    then show "\<exists>n. CreateArray (DmnCell ''s'') n \<in> set ev" by auto
  qed
  have regions: "\<exists>nv np.
              Nvol (ndD_s sim) l = Some nv \<and> Npart (ndD_s sim) l = Some np \<and>
              CreateArray (DmnCell l) nv \<in> set ev \<and> CreateArray (DmnPart l) np \<in> set ev \<and>
              (\<forall>i<nat nv. \<forall>j<nat np. \<exists>x. psd_num_at sim l i j = Inr x \<and>
                  CreateArray (PartDmn l i j) (py_int x) \<in> set ev)"
    if l: "l \<in> set (trodes (ndD_s sim))" for l
  proof -
    from forM_step [of "trodes (ndD_s sim)" _ ?Q, OF _ loop l] domains_trode_extends
    obtain v v' where v: "extends ?Q (?w0 ns) v" "domains_trode sim l v = Inr v'"
      "extends ?Q v' w'" by blast
    from domains_trode_covers [OF v(2) l] obtain nv np new where
      c: "Nvol (ndD_s sim) l = Some nv" "Npart (ndD_s sim) l = Some np"
        "calls v' = calls v @ new"
        "CreateArray (DmnCell l) nv \<in> set new" "CreateArray (DmnPart l) np \<in> set new"
        "\<forall>i<nat nv. \<forall>j<nat np. \<exists>x. psd_num_at sim l i j = Inr x \<and>
               CreateArray (PartDmn l i j) (py_int x) \<in> set new"
      by blast
    have wv: "extends ?Q w v" by (rule extends_trans [OF a v(1)])
    have up: "\<And>c. c \<in> set new \<Longrightarrow> c \<in> set ev"
      by (rule extends_mem [OF wv v(3) c(3) _ ev(1)])
    show ?thesis using c up by blast
  qed
  show ?thesis using ns ev sep_iff regions by blast
qed

lemma ex_float_calls:
  "calls_of (SetUpParametersAndDomains ex_sim_float ex_world) =
     Inr [CreateArray (DmnCell ''s'') 1, CreateArray (DmnCell ''c'') 1,
          CreateArray (DmnPart ''c'') 2, CreateArray (PartDmn ''c'' 0 0) 2,
          CreateArray (PartDmn ''c'' 0 1) 4]"
  by (simp add: ex_sim_float_def ex_sim_def ex_cfg_def ex_world_def eval_defs)

lemma ex_float_lookups:
  "''s'' \<notin> set (trodes (ndD_s ex_sim_float))"
  "''c'' \<in> set (trodes (ndD_s ex_sim_float))"
  "Nvol (ndD_s ex_sim_float) ''s'' = Some 1"
  "Nvol (ndD_s ex_sim_float) ''c'' = Some 1"
  "Npart (ndD_s ex_sim_float) ''c'' = Some 2"
  "psd_num_at ex_sim_float ''c'' 0 0 = Inr (PyFloat 2.7)"
  "py_int (PyFloat 2.7) = 2"
  by (simp_all add: ex_sim_float_def ex_sim_def ex_cfg_def eval_defs)

theorem domain_allocation_witness:
  "psd_num_at ex_sim_float ''c'' 0 0 = Inr (PyFloat 2.7) \<and>
   (\<exists>w' ev. SetUpParametersAndDomains ex_sim_float ex_world = Inr w' \<and>
      calls w' = calls ex_world @ ev \<and> list_all (domain_call ex_sim_float) ev \<and>
      CreateArray (DmnCell ''s'') 1 \<in> set ev \<and>
      CreateArray (DmnCell ''c'') 1 \<in> set ev \<and>
      CreateArray (DmnPart ''c'') 2 \<in> set ev \<and>
      CreateArray (PartDmn ''c'' 0 0) 2 \<in> set ev)"
proof -
  obtain w' where w': "SetUpParametersAndDomains ex_sim_float ex_world = Inr w'"
    using calls_of_Inr [OF ex_float_calls] by blast
  from domain_allocation [OF w' ex_float_lookups(1)] obtain ns ev where
    ns: "Nvol (ndD_s ex_sim_float) ''s'' = Some ns"
    and ev: "calls w' = calls ex_world @ ev" "list_all (domain_call ex_sim_float) ev"
    and sep: "(\<exists>n. CreateArray (DmnCell ''s'') n \<in> set ev) \<longleftrightarrow> ns \<ge> 1"
    and reg: "\<forall>l\<in>set (trodes (ndD_s ex_sim_float)). \<exists>nv np.
              Nvol (ndD_s ex_sim_float) l = Some nv \<and> Npart (ndD_s ex_sim_float) l = Some np \<and>
              CreateArray (DmnCell l) nv \<in> set ev \<and> CreateArray (DmnPart l) np \<in> set ev \<and>
              (\<forall>i<nat nv. \<forall>j<nat np. \<exists>x. psd_num_at ex_sim_float l i j = Inr x \<and>
                  CreateArray (PartDmn l i j) (py_int x) \<in> set ev)"
    by blast
  from ns have ns1: "ns = 1" by (simp add: ex_float_lookups)
  with sep obtain n where n: "CreateArray (DmnCell ''s'') n \<in> set ev" by auto
  with ev(2) have "domain_call ex_sim_float (CreateArray (DmnCell ''s'') n)"
    by (simp add: list_all_iff)
  then have "n = 1" by (simp add: domain_call_def ex_float_lookups)
  with n have s: "CreateArray (DmnCell ''s'') 1 \<in> set ev" by simp
  from reg ex_float_lookups(2) obtain nv np where
    c: "Nvol (ndD_s ex_sim_float) ''c'' = Some nv" "Npart (ndD_s ex_sim_float) ''c'' = Some np"
      "CreateArray (DmnCell ''c'') nv \<in> set ev" "CreateArray (DmnPart ''c'') np \<in> set ev"
      "\<forall>i<nat nv. \<forall>j<nat np. \<exists>x. psd_num_at ex_sim_float ''c'' i j = Inr x \<and>
                  CreateArray (PartDmn ''c'' i j) (py_int x) \<in> set ev"
    by blast
  from c(1,2) have nvnp: "nv = 1" "np = 2" by (simp_all add: ex_float_lookups)
  from c(5) nvnp obtain x where "psd_num_at ex_sim_float ''c'' 0 0 = Inr x"
    "CreateArray (PartDmn ''c'' 0 0) (py_int x) \<in> set ev"
    by force
  then have p: "CreateArray (PartDmn ''c'' 0 0) 2 \<in> set ev"
    using ex_float_lookups(6,7) by auto
  show ?thesis using w' ev s c(3,4) nvnp p ex_float_lookups(6) by blast
qed

section \<open>The calls of one particle in fresh-start mode\<close>

lemma forM_emit:
  assumes "forM ks (\<lambda>k w'. Inr (emit (g k) w')) w = Inr w1"
  shows "calls w1 = calls w @ map g ks \<and> rand_src w1 = rand_src w"
  using assms
proof (induction ks arbitrary: w)
  case Nil
  then show ?case by simp
next
  case (Cons k ks)
  then have "forM ks (\<lambda>k w'. Inr (emit (g k) w')) (emit (g k) w) = Inr w1" by simp
  from Cons.IH [OF this] show ?case by (simp add: emit_def)
qed


lemma fresh_particle_reached:
  assumes run: "SetUpVariables_fresh sim w = Inr w1" and dom: "in_domain sim l i j"
  shows "\<exists>cs v v'. cs0 (ndD_s sim) l = Some cs \<and> extends (fresh_call sim) w v \<and>
           fresh_particle sim l cs i j v = Inr v' \<and> extends (fresh_call sim) v' w1"
proof -
  let ?Q = "fresh_call sim"
  from dom obtain nv np where l: "l \<in> set (trodes (ndD_s sim))"
    and nv: "Nvol (ndD_s sim) l = Some nv" "i < nat nv"
    and np: "Npart (ndD_s sim) l = Some np" "j < nat np"
    unfolding in_domain_def by (auto split: option.splits)
  from run obtain wa where s1: "forM (trodes (ndD_s sim)) (fresh_trode sim) w = Inr wa"
    and rest: "extends ?Q wa w1"
  proof -
    from run obtain wa wb wc where
      s1: "forM (trodes (ndD_s sim)) (fresh_trode sim) w = Inr wa"
      and s2: "fresh_lyte sim ''s'' wa = Inr wb"
      and s3: "forM (trodes (ndD_s sim)) (fresh_lyte sim) wb = Inr wc"
      and s4: "w1 = emit (SetInitialGuess Phi_applied 0) wc"
      unfolding SetUpVariables_fresh_def by (auto simp: bindE_Inr)
    have b: "extends ?Q wa wb" by (rule fresh_lyte_extends [OF s2])
    have c: "extends ?Q wb wc"
      by (rule forM_extends [OF _ s3]) (rule fresh_lyte_extends)
    have d: "extends ?Q wc w1" unfolding s4
      by (rule extends_emit) (simp add: fresh_call_def)
    have "extends ?Q wa w1" by (rule extends_trans [OF b extends_trans [OF c d]])
    with s1 show ?thesis by (rule that)
  qed
  have "\<exists>v v'. extends ?Q w v \<and> fresh_trode sim l v = Inr v' \<and> extends ?Q v' wa"
    by (rule forM_step [OF _ s1 l]) (rule fresh_trode_extends)
  then obtain v1 v1' where v1: "extends ?Q w v1" "fresh_trode sim l v1 = Inr v1'" "extends ?Q v1' wa"
    by blast
  from v1(2) nv(1) obtain cs where cs: "cs0 (ndD_s sim) l = Some cs"
    and loop1: "forM (py_range nv) (fresh_volume sim l cs)
                 (emit (SetInitialGuess (Ffrac l) cs) v1) = Inr v1'"
    unfolding fresh_trode_def by (auto simp: bindE_Inr getitem_Inr)
  have i: "i \<in> set (py_range nv)" using nv(2) by (simp add: py_range_mem)
  have "\<exists>v v'. extends ?Q (emit (SetInitialGuess (Ffrac l) cs) v1) v \<and>
      fresh_volume sim l cs i v = Inr v' \<and> extends ?Q v' v1'"
    by (rule forM_step [OF _ loop1 i]) (rule fresh_volume_extends [OF _ cs])
  then obtain v2 v2' where v2: "extends ?Q (emit (SetInitialGuess (Ffrac l) cs) v1) v2"
    "fresh_volume sim l cs i v2 = Inr v2'" "extends ?Q v2' v1'"
    by blast
  let ?v2e = "emit (SetInitialGuessAt (Phi_bulk l) i
                  (if l = ''a'' then 0 else phi_cathode (ndD_s sim)))
             (emit (SetInitialGuessAt (R_Vp l) i 0) v2)"
  from v2(2) np(1) have loop2: "forM (py_range np) (fresh_particle sim l cs i) ?v2e = Inr v2'"
    unfolding fresh_volume_def by (auto simp: bindE_Inr getitem_Inr)
  have j: "j \<in> set (py_range np)" using np(2) by (simp add: py_range_mem)
  have "\<exists>v v'. extends ?Q ?v2e v \<and>
      fresh_particle sim l cs i j v = Inr v' \<and> extends ?Q v' v2'"
    by (rule forM_step [OF _ loop2 j]) (rule fresh_particle_extends [OF _ cs])
  then obtain v3 v3' where v3: "extends ?Q ?v2e v3"
    "fresh_particle sim l cs i j v3 = Inr v3'" "extends ?Q v3' v2'"
    by blast
  have e1: "extends ?Q v1 (emit (SetInitialGuess (Ffrac l) cs) v1)"
    by (rule extends_emit) (simp add: fresh_call_def cs)
  have e2: "extends ?Q v2 ?v2e"
    by (rule extends_emit2) (simp_all add: fresh_call_def)
  have before: "extends ?Q w v3"
    by (rule extends_trans [OF v1(1) extends_trans [OF e1 extends_trans [OF v2(1)
          extends_trans [OF e2 v3(1)]]]])
  have after: "extends ?Q v3' w1"
    by (rule extends_trans [OF v3(3) extends_trans [OF v2(3) extends_trans [OF v1(3) rest]]])
  show ?thesis using cs before v3(2) after by blast
qed

lemma fresh_mode_calls:
  assumes fresh: "prevDir (ndD_s sim) = ''false''" and run: "SetUpVariables sim w = Inr w'"
  shows "\<exists>w1 ev1. SetUpVariables_fresh sim w = Inr w1 \<and> w' = emit (AssignValue DummyVar 0) w1 \<and>
           calls w1 = calls w @ ev1 \<and> list_all (fresh_call sim) ev1 \<and>
           calls w' = calls w @ ev1 @ [AssignValue DummyVar 0]"
proof -
  from run fresh obtain w1 where w': "w' = emit (AssignValue DummyVar 0) w1"
    and r1: "SetUpVariables_fresh sim w = Inr w1"
    unfolding SetUpVariables_Inr by auto
  from extends_calls [OF SetUpVariables_fresh_extends [OF r1]] obtain ev1 where
    "calls w1 = calls w @ ev1" "list_all (fresh_call sim) ev1" by blast
  then show ?thesis using w' r1 by (auto simp: emit_def)
qed

section \<open>Single-field particles in fresh-start mode\<close>

text \<open>
  C2. In fresh-start mode, whenever \<open>SetUpVariables\<close> returns normally, a particle of the
  domain whose tag is in the single-field kind-set has an integer discretization count
  \<open>n\<close>, and among the calls made are the guess of its average concentration at the
  configured \<open>cs0\<close> of its region and, for every index \<open>k\<close> below \<open>n\<close>, the initial
  condition of its concentration at \<open>k\<close> with that same value. No call sets another
  value for the average or for a point, and none sets a point outside the \<open>n\<close> indices.
\<close>

theorem single_field_exact:
  assumes fresh: "prevDir (ndD_s sim) = ''false''" and run: "SetUpVariables sim w = Inr w'"
    and dom: "in_domain sim l i j"
    and t: "solidType_at sim l i j = Inr t" and one: "t \<in> set (oneVarTypes (ndD_s sim))"
  shows "\<exists>cs n ev. cs0 (ndD_s sim) l = Some cs \<and> psd_num_at sim l i j = Inr (PyInt n) \<and>
           calls w' = calls w @ ev \<and>
           SetInitialGuess (Part l i j F_cbar) cs \<in> set ev \<and>
           (\<forall>k<nat n. SetInitialCondition (Part l i j F_c) k cs \<in> set ev) \<and>
           (\<forall>k v. SetInitialCondition (Part l i j F_c) k v \<in> set ev \<longrightarrow> v = cs \<and> k < nat n) \<and>
           (\<forall>v. SetInitialGuess (Part l i j F_cbar) v \<in> set ev \<longrightarrow> v = cs)"
proof -
  let ?Q = "fresh_call sim"
  from fresh_mode_calls [OF fresh run] obtain w1 ev1 where
    r1: "SetUpVariables_fresh sim w = Inr w1" and w': "w' = emit (AssignValue DummyVar 0) w1"
    and ev1: "calls w1 = calls w @ ev1" "list_all ?Q ev1"
    and ev: "calls w' = calls w @ ev1 @ [AssignValue DummyVar 0]"
    by blast
  from fresh_particle_reached [OF r1 dom] obtain cs v v' where
    cs: "cs0 (ndD_s sim) l = Some cs" and before: "extends ?Q w v"
    and part: "fresh_particle sim l cs i j v = Inr v'" and after: "extends ?Q v' w1"
    by blast
  from part t one obtain n where n: "psd_num_at sim l i j = Inr (PyInt n)"
    and loop: "forM [0..<nat n]
          (\<lambda>k w'. Inr (emit (SetInitialCondition (Part l i j F_c) k cs) w'))
          (emit (SetInitialGuess (Part l i j F_cbar) cs) v) = Inr v'"
    unfolding fresh_particle_def by (auto simp: bindE_Inr range_num_Inr)
  let ?new = "SetInitialGuess (Part l i j F_cbar) cs #
              map (\<lambda>k. SetInitialCondition (Part l i j F_c) k cs) [0..<nat n]"
  have new: "calls v' = calls v @ ?new"
    using forM_emit [OF loop] by (simp add: emit_def)
  have up: "\<And>c. c \<in> set ?new \<Longrightarrow> c \<in> set ev1"
    by (rule extends_mem [OF before after new _ ev1(1)])
  have k: "kind_of sim l i j = Some SingleField" by (rule kind_of_single [OF t one])
  have a: "SetInitialGuess (Part l i j F_cbar) cs \<in> set (ev1 @ [AssignValue DummyVar 0])"
    using up by simp
  have b: "\<forall>k<nat n. SetInitialCondition (Part l i j F_c) k cs
             \<in> set (ev1 @ [AssignValue DummyVar 0])"
    using up by simp
  have c: "\<forall>k x. SetInitialCondition (Part l i j F_c) k x \<in> set (ev1 @ [AssignValue DummyVar 0])
             \<longrightarrow> x = cs \<and> k < nat n"
  proof (intro allI impI)
    fix k x
    assume "SetInitialCondition (Part l i j F_c) k x \<in> set (ev1 @ [AssignValue DummyVar 0])"
    then have "SetInitialCondition (Part l i j F_c) k x \<in> set ev1" by simp
    with ev1(2) have "?Q (SetInitialCondition (Part l i j F_c) k x)"
      by (simp add: list_all_iff)
    then show "x = cs \<and> k < nat n"
      by (simp add: fresh_call_def point_field_ok_def n cs)
  qed
  have d: "\<forall>x. SetInitialGuess (Part l i j F_cbar) x \<in> set (ev1 @ [AssignValue DummyVar 0])
             \<longrightarrow> x = cs"
  proof (intro allI impI)
    fix x
    assume "SetInitialGuess (Part l i j F_cbar) x \<in> set (ev1 @ [AssignValue DummyVar 0])"
    then have "SetInitialGuess (Part l i j F_cbar) x \<in> set ev1" by simp
    with ev1(2) have "?Q (SetInitialGuess (Part l i j F_cbar) x)"
      by (simp add: list_all_iff)
    then show "x = cs" by (simp add: fresh_call_def cs)
  qed
  show ?thesis using cs n ev a b c d by blast
qed

lemma ex_single_lookups:
  "prevDir (ndD_s ex_sim) = ''false''"
  "in_domain ex_sim ''c'' 0 0"
  "solidType_at ex_sim ''c'' 0 0 = Inr ''ACR''"
  "''ACR'' \<in> set (oneVarTypes (ndD_s ex_sim))"
  "cs0 (ndD_s ex_sim) ''c'' = Some (1/2)"
  "psd_num_at ex_sim ''c'' 0 0 = Inr (PyInt 2)"
  by (simp_all add: ex_sim_def ex_cfg_def ex_cfg_e_def in_domain_def eval_defs)

theorem single_field_exact_witness:
  "\<exists>w' ev. SetUpVariables ex_sim ex_world = Inr w' \<and> calls w' = calls ex_world @ ev \<and>
     SetInitialGuess (Part ''c'' 0 0 F_cbar) (1/2) \<in> set ev \<and>
     SetInitialCondition (Part ''c'' 0 0 F_c) 0 (1/2) \<in> set ev \<and>
     SetInitialCondition (Part ''c'' 0 0 F_c) 1 (1/2) \<in> set ev \<and>
     SetInitialCondition (Part ''c'' 0 0 F_c) 2 (1/2) \<notin> set ev"
proof -
  obtain w' where w': "SetUpVariables ex_sim ex_world = Inr w'"
    using calls_of_Inr [OF ex_fresh_calls] by blast
  from single_field_exact [OF ex_single_lookups(1) w' ex_single_lookups(2,3,4)]
  obtain cs n ev where
    f: "cs0 (ndD_s ex_sim) ''c'' = Some cs" "psd_num_at ex_sim ''c'' 0 0 = Inr (PyInt n)"
      "calls w' = calls ex_world @ ev"
      "SetInitialGuess (Part ''c'' 0 0 F_cbar) cs \<in> set ev"
      "\<forall>k<nat n. SetInitialCondition (Part ''c'' 0 0 F_c) k cs \<in> set ev"
      "\<forall>k v. SetInitialCondition (Part ''c'' 0 0 F_c) k v \<in> set ev \<longrightarrow> v = cs \<and> k < nat n"
    by blast
  from f(1,2) have v: "cs = 1/2" "n = 2" by (simp_all add: ex_single_lookups)
  have "SetInitialCondition (Part ''c'' 0 0 F_c) 0 (1/2) \<in> set ev"
    "SetInitialCondition (Part ''c'' 0 0 F_c) 1 (1/2) \<in> set ev"
    using f(5) v by simp_all
  moreover have "SetInitialCondition (Part ''c'' 0 0 F_c) 2 (1/2) \<notin> set ev"
    using f(6) v by auto
  ultimately show ?thesis using w' f(3,4) v by blast
qed

section \<open>The perturbation sequences\<close>












section \<open>Two-field particles in fresh-start mode\<close>






section \<open>Restart mode: every quantity is restored\<close>

lemma restart_phases:
  assumes run: "SetUpVariables_restart sim d w = Inr w1"
  shows "\<exists>wa wb wc p.
           forM (trodes (ndD_s sim)) (restart_trode sim d) w = Inr wa \<and>
           restart_lyte sim d ''s'' wa = Inr wb \<and>
           forM (trodes (ndD_s sim)) (restart_lyte sim d) wb = Inr wc \<and>
           prev_scalar d ''phi_applied'' = Inr p \<and>
           w1 = emit (SetInitialGuess Phi_applied p) wc \<and>
           extends (restart_call sim d) w wa \<and> extends (restart_call sim d) wa wb \<and>
           extends (restart_call sim d) wb wc \<and> extends (restart_call sim d) wc w1"
proof -
  let ?Q = "restart_call sim d"
  from run obtain wa wb wc p where
    s1: "forM (trodes (ndD_s sim)) (restart_trode sim d) w = Inr wa"
    and s2: "restart_lyte sim d ''s'' wa = Inr wb"
    and s3: "forM (trodes (ndD_s sim)) (restart_lyte sim d) wb = Inr wc"
    and p: "prev_scalar d ''phi_applied'' = Inr p"
    and s4: "w1 = emit (SetInitialGuess Phi_applied p) wc"
    unfolding SetUpVariables_restart_def by (auto simp: bindE_Inr)
  have a: "extends ?Q w wa" by (rule forM_extends [OF _ s1]) (rule restart_trode_extends)
  have b: "extends ?Q wa wb" by (rule restart_lyte_extends [OF s2])
  have c: "extends ?Q wb wc" by (rule forM_extends [OF _ s3]) (rule restart_lyte_extends)
  have e: "extends ?Q wc w1" unfolding s4
    using p by (intro extends_emit) (simp add: restart_call_def)
  show ?thesis using s1 s2 s3 p s4 a b c e by blast
qed

lemma restart_trode_reached:
  assumes run: "SetUpVariables_restart sim d w = Inr w1" and l: "l \<in> set (trodes (ndD_s sim))"
  shows "\<exists>v v'. extends (restart_call sim d) w v \<and> restart_trode sim d l v = Inr v' \<and>
           extends (restart_call sim d) v' w1"
proof -
  let ?Q = "restart_call sim d"
  from restart_phases [OF run] obtain wa wb wc where
    s1: "forM (trodes (ndD_s sim)) (restart_trode sim d) w = Inr wa"
    and b: "extends ?Q wa wb" and c: "extends ?Q wb wc" and e: "extends ?Q wc w1"
    by blast
  have "\<exists>v v'. extends ?Q w v \<and> restart_trode sim d l v = Inr v' \<and> extends ?Q v' wa"
    by (rule forM_step [OF _ s1 l]) (rule restart_trode_extends)
  then obtain v v' where v: "extends ?Q w v" "restart_trode sim d l v = Inr v'" "extends ?Q v' wa"
    by blast
  have "extends ?Q v' w1"
    by (rule extends_trans [OF v(3) extends_trans [OF b extends_trans [OF c e]]])
  with v(1,2) show ?thesis by blast
qed

lemma restart_sets_ffrac:
  assumes run: "SetUpVariables_restart sim d w = Inr w1" and l: "l \<in> set (trodes (ndD_s sim))"
    and ev: "calls w1 = calls w @ ev"
  shows "\<exists>f. prev_scalar d (''ffrac_'' @ l) = Inr f \<and> SetInitialGuess (Ffrac l) f \<in> set ev"
proof -
  let ?Q = "restart_call sim d"
  from restart_trode_reached [OF run l] obtain v v' where
    v: "extends ?Q w v" "restart_trode sim d l v = Inr v'" "extends ?Q v' w1"
    by blast
  from v(2) obtain f nv where f: "prev_scalar d (''ffrac_'' @ l) = Inr f"
    and loop: "forM (py_range nv) (restart_volume sim d l) (emit (SetInitialGuess (Ffrac l) f) v) = Inr v'"
    unfolding restart_trode_def by (auto simp: bindE_Inr)
  have "extends ?Q (emit (SetInitialGuess (Ffrac l) f) v) v'"
    by (rule forM_extends [OF _ loop]) (rule restart_volume_extends)
  then have after: "extends ?Q (emit (SetInitialGuess (Ffrac l) f) v) w1"
    by (rule extends_trans [OF _ v(3)])
  have "SetInitialGuess (Ffrac l) f \<in> set ev"
    by (rule extends_mem [OF v(1) after _ _ ev, where new = "[SetInitialGuess (Ffrac l) f]"])
      (simp_all add: emit_def)
  with f show ?thesis by blast
qed

lemma restart_volume_reached:
  assumes run: "SetUpVariables_restart sim d w = Inr w1" and vol: "in_volume sim l i"
  shows "\<exists>v v'. extends (restart_call sim d) w v \<and> restart_volume sim d l i v = Inr v' \<and>
           extends (restart_call sim d) v' w1"
proof -
  let ?Q = "restart_call sim d"
  from vol obtain nv where l: "l \<in> set (trodes (ndD_s sim))"
    and nv: "Nvol (ndD_s sim) l = Some nv" "i < nat nv"
    unfolding in_volume_def by (auto split: option.splits)
  from restart_trode_reached [OF run l] obtain v1 v1' where
    v1: "extends ?Q w v1" "restart_trode sim d l v1 = Inr v1'" "extends ?Q v1' w1"
    by blast
  from v1(2) nv(1) obtain f where f: "prev_scalar d (''ffrac_'' @ l) = Inr f"
    and loop: "forM (py_range nv) (restart_volume sim d l)
                 (emit (SetInitialGuess (Ffrac l) f) v1) = Inr v1'"
    unfolding restart_trode_def by (auto simp: bindE_Inr getitem_Inr)
  have i: "i \<in> set (py_range nv)" using nv(2) by (simp add: py_range_mem)
  have "\<exists>v v'. extends ?Q (emit (SetInitialGuess (Ffrac l) f) v1) v \<and>
      restart_volume sim d l i v = Inr v' \<and> extends ?Q v' v1'"
    by (rule forM_step [OF _ loop i]) (rule restart_volume_extends)
  then obtain v2 v2' where v2: "extends ?Q (emit (SetInitialGuess (Ffrac l) f) v1) v2"
    "restart_volume sim d l i v2 = Inr v2'" "extends ?Q v2' v1'"
    by blast
  have e1: "extends ?Q v1 (emit (SetInitialGuess (Ffrac l) f) v1)"
    using f by (intro extends_emit) (simp add: restart_call_def)
  have before: "extends ?Q w v2"
    by (rule extends_trans [OF v1(1) extends_trans [OF e1 v2(1)]])
  have after: "extends ?Q v2' w1"
    by (rule extends_trans [OF v2(3) v1(3)])
  show ?thesis using before v2(2) after by blast
qed

lemma restart_sets_volume:
  assumes run: "SetUpVariables_restart sim d w = Inr w1" and vol: "in_volume sim l i"
    and ev: "calls w1 = calls w @ ev"
  shows "\<exists>r p. prev_at d (''R_Vp_'' @ l) i = Inr r \<and> prev_at d (''phi_bulk_'' @ l) i = Inr p \<and>
           SetInitialGuessAt (R_Vp l) i r \<in> set ev \<and> SetInitialGuessAt (Phi_bulk l) i p \<in> set ev"
proof -
  let ?Q = "restart_call sim d"
  from restart_volume_reached [OF run vol] obtain v v' where
    v: "extends ?Q w v" "restart_volume sim d l i v = Inr v'" "extends ?Q v' w1"
    by blast
  from v(2) obtain r p np where r: "prev_at d (''R_Vp_'' @ l) i = Inr r"
    and p: "prev_at d (''phi_bulk_'' @ l) i = Inr p"
    and loop: "forM (py_range np) (restart_particle sim d l i)
         (emit (SetInitialGuessAt (Phi_bulk l) i p)
         (emit (SetInitialGuessAt (R_Vp l) i r) v)) = Inr v'"
    unfolding restart_volume_def by (auto simp: bindE_Inr)
  let ?ve = "emit (SetInitialGuessAt (Phi_bulk l) i p) (emit (SetInitialGuessAt (R_Vp l) i r) v)"
  have "extends ?Q ?ve v'"
    by (rule forM_extends [OF _ loop]) (rule restart_particle_extends)
  then have after: "extends ?Q ?ve w1"
    by (rule extends_trans [OF _ v(3)])
  have c: "calls ?ve = calls v @ [SetInitialGuessAt (R_Vp l) i r, SetInitialGuessAt (Phi_bulk l) i p]"
    by (simp add: emit_def)
  have "SetInitialGuessAt (R_Vp l) i r \<in> set ev"
    by (rule extends_mem [OF v(1) after c _ ev]) simp
  moreover have "SetInitialGuessAt (Phi_bulk l) i p \<in> set ev"
    by (rule extends_mem [OF v(1) after c _ ev]) simp
  ultimately show ?thesis using r p by blast
qed

lemma restart_particle_reached:
  assumes run: "SetUpVariables_restart sim d w = Inr w1" and dom: "in_domain sim l i j"
  shows "\<exists>v v'. extends (restart_call sim d) w v \<and> restart_particle sim d l i j v = Inr v' \<and>
           extends (restart_call sim d) v' w1"
proof -
  let ?Q = "restart_call sim d"
  from dom obtain np where vol: "in_volume sim l i"
    and np: "Npart (ndD_s sim) l = Some np" "j < nat np"
    unfolding in_domain_def in_volume_def by (auto split: option.splits)
  from restart_volume_reached [OF run vol] obtain v2 v2' where
    v2: "extends ?Q w v2" "restart_volume sim d l i v2 = Inr v2'" "extends ?Q v2' w1"
    by blast
  from v2(2) np(1) obtain r p where r: "prev_at d (''R_Vp_'' @ l) i = Inr r"
    and p: "prev_at d (''phi_bulk_'' @ l) i = Inr p"
    and loop: "forM (py_range np) (restart_particle sim d l i)
         (emit (SetInitialGuessAt (Phi_bulk l) i p)
         (emit (SetInitialGuessAt (R_Vp l) i r) v2)) = Inr v2'"
    unfolding restart_volume_def by (auto simp: bindE_Inr getitem_Inr)
  let ?ve = "emit (SetInitialGuessAt (Phi_bulk l) i p) (emit (SetInitialGuessAt (R_Vp l) i r) v2)"
  have j: "j \<in> set (py_range np)" using np(2) by (simp add: py_range_mem)
  have "\<exists>v v'. extends ?Q ?ve v \<and> restart_particle sim d l i j v = Inr v' \<and> extends ?Q v' v2'"
    by (rule forM_step [OF _ loop j]) (rule restart_particle_extends)
  then obtain v3 v3' where v3: "extends ?Q ?ve v3"
    "restart_particle sim d l i j v3 = Inr v3'" "extends ?Q v3' v2'"
    by blast
  have e2: "extends ?Q v2 ?ve"
    using r p by (intro extends_emit2) (simp_all add: restart_call_def)
  have before: "extends ?Q w v3"
    by (rule extends_trans [OF v2(1) extends_trans [OF e2 v3(1)]])
  have after: "extends ?Q v3' w1"
    by (rule extends_trans [OF v3(3) v2(3)])
  show ?thesis using before v3(2) after by blast
qed


lemma restart_sets_avg:
  assumes run: "SetUpVariables_restart sim d w = Inr w1" and dom: "in_domain sim l i j"
    and f: "avg_field_ok sim l i j f" and ev: "calls w1 = calls w @ ev"
  shows "\<exists>x. prev_scalar d (partStr l i j @ field_name f) = Inr x \<and>
           SetInitialGuess (Part l i j f) x \<in> set ev"
proof -
  let ?Q = "restart_call sim d"
  from restart_particle_reached [OF run dom] obtain v v' where
    v: "extends ?Q w v" "restart_particle sim d l i j v = Inr v'" "extends ?Q v' w1"
    by blast
  from v(2) obtain Nij t where N: "psd_num_at sim l i j = Inr Nij"
    and t: "solidType_at sim l i j = Inr t"
    unfolding restart_particle_def by (auto simp: bindE_Inr)
  from f t consider
      (one) "t \<in> set (oneVarTypes (ndD_s sim))" "f = F_cbar"
    | (two) "t \<notin> set (oneVarTypes (ndD_s sim))" "t \<in> set (twoVarTypes (ndD_s sim))"
        "f = F_c1bar \<or> f = F_c2bar \<or> f = F_cbar"
    unfolding avg_field_ok_def kind_of_def by (auto split: if_splits)
  then show ?thesis
  proof cases
    case one
    from v(2) N t one(1) obtain x ks where x: "prev_scalar d (partStr l i j @ ''cbar'') = Inr x"
      and loop: "forM ks (\<lambda>k w'.
               bindE (prev_at d (partStr l i j @ ''c'') k) (\<lambda>x.
                 Inr (emit (SetInitialCondition (Part l i j F_c) k x) w')))
             (emit (SetInitialGuess (Part l i j F_cbar) x) v) = Inr v'"
      unfolding restart_particle_def by (auto simp: bindE_Inr)
    let ?ve = "emit (SetInitialGuess (Part l i j F_cbar) x) v"
    have "extends (\<lambda>_. True) ?ve v'"
      by (rule forM_extends [OF _ loop]) (auto simp: bindE_Inr intro: extends_emit)
    moreover have "extends (\<lambda>_. True) v' w1"
      by (rule extends_weaken [OF v(3)]) simp
    ultimately have after: "extends (\<lambda>_. True) ?ve w1" by (rule extends_trans)
    have "SetInitialGuess (Part l i j F_cbar) x \<in> set ev"
      by (rule extends_mem [OF v(1) after _ _ ev,
            where new = "[SetInitialGuess (Part l i j F_cbar) x]"]) (simp_all add: emit_def)
    with x one(2) show ?thesis by auto
  next
    case two
    from v(2) N t two(1,2) obtain x1 x2 x ks where
      x1: "prev_scalar d (partStr l i j @ ''c1bar'') = Inr x1"
      and x2: "prev_scalar d (partStr l i j @ ''c2bar'') = Inr x2"
      and x: "prev_scalar d (partStr l i j @ ''cbar'') = Inr x"
      and loop: "forM ks (\<lambda>k w'.
               bindE (prev_at d (partStr l i j @ ''c1'') k) (\<lambda>x1.
               bindE (prev_at d (partStr l i j @ ''c2'') k) (\<lambda>x2.
                 Inr (emit (SetInitialCondition (Part l i j F_c2) k x2)
                     (emit (SetInitialCondition (Part l i j F_c1) k x1) w')))))
             (emit (SetInitialGuess (Part l i j F_cbar) x)
             (emit (SetInitialGuess (Part l i j F_c2bar) x2)
             (emit (SetInitialGuess (Part l i j F_c1bar) x1) v))) = Inr v'"
      unfolding restart_particle_def by (auto simp: bindE_Inr)
    let ?ve = "emit (SetInitialGuess (Part l i j F_cbar) x)
             (emit (SetInitialGuess (Part l i j F_c2bar) x2)
             (emit (SetInitialGuess (Part l i j F_c1bar) x1) v))"
    have "extends (\<lambda>_. True) ?ve v'"
      by (rule forM_extends [OF _ loop]) (auto simp: bindE_Inr intro: extends_emit2)
    moreover have "extends (\<lambda>_. True) v' w1"
      by (rule extends_weaken [OF v(3)]) simp
    ultimately have after: "extends (\<lambda>_. True) ?ve w1" by (rule extends_trans)
    have c: "calls ?ve = calls v @ [SetInitialGuess (Part l i j F_c1bar) x1,
        SetInitialGuess (Part l i j F_c2bar) x2, SetInitialGuess (Part l i j F_cbar) x]"
      by (simp add: emit_def)
    have "SetInitialGuess (Part l i j F_c1bar) x1 \<in> set ev"
      by (rule extends_mem [OF v(1) after c _ ev]) simp
    moreover have "SetInitialGuess (Part l i j F_c2bar) x2 \<in> set ev"
      by (rule extends_mem [OF v(1) after c _ ev]) simp
    moreover have "SetInitialGuess (Part l i j F_cbar) x \<in> set ev"
      by (rule extends_mem [OF v(1) after c _ ev]) simp
    ultimately show ?thesis using x1 x2 x two(3) by auto
  qed
qed

lemma restart_sets_point:
  assumes run: "SetUpVariables_restart sim d w = Inr w1" and dom: "in_domain sim l i j"
    and f: "point_field_ok sim l i j f k" and ev: "calls w1 = calls w @ ev"
  shows "\<exists>x. prev_at d (partStr l i j @ field_name f) k = Inr x \<and>
           SetInitialCondition (Part l i j f) k x \<in> set ev"
proof -
  let ?Q = "restart_call sim d"
  let ?T = "\<lambda>_::call. True"
  from restart_particle_reached [OF run dom] obtain v v' where
    v: "extends ?Q w v" "restart_particle sim d l i j v = Inr v'" "extends ?Q v' w1"
    by blast
  have v1: "extends ?T w v" by (rule extends_weaken [OF v(1)]) simp
  have v3: "extends ?T v' w1" by (rule extends_weaken [OF v(3)]) simp
  from v(2) obtain t where t: "solidType_at sim l i j = Inr t"
    unfolding restart_particle_def by (auto simp: bindE_Inr)
  from f obtain n where N: "psd_num_at sim l i j = Inr (PyInt n)" and k: "k < nat n"
    unfolding point_field_ok_def by (auto split: sum.splits pynum.splits)
  have kin: "k \<in> set [0..<nat n]" using k by simp
  from f t consider
      (one) "t \<in> set (oneVarTypes (ndD_s sim))" "f = F_c"
    | (two) "t \<notin> set (oneVarTypes (ndD_s sim))" "t \<in> set (twoVarTypes (ndD_s sim))"
        "f = F_c1 \<or> f = F_c2"
    unfolding point_field_ok_def kind_of_def by (auto split: if_splits)
  then show ?thesis
  proof cases
    case one
    let ?body = "\<lambda>k w'. bindE (prev_at d (partStr l i j @ ''c'') k) (\<lambda>x.
                 Inr (emit (SetInitialCondition (Part l i j F_c) k x) w'))"
    from v(2) N t one(1) obtain x0 where
      loop: "forM [0..<nat n] ?body (emit (SetInitialGuess (Part l i j F_cbar) x0) v) = Inr v'"
      unfolding restart_particle_def by (auto simp: bindE_Inr range_num_Inr)
    let ?ve = "emit (SetInitialGuess (Part l i j F_cbar) x0) v"
    have "\<exists>u u'. extends ?T ?ve u \<and> ?body k u = Inr u' \<and> extends ?T u' v'"
      by (rule forM_step [OF _ loop kin]) (auto simp: bindE_Inr intro: extends_emit)
    then obtain u u' where u: "extends ?T ?ve u" "?body k u = Inr u'" "extends ?T u' v'"
      by blast
    from u(2) obtain x where x: "prev_at d (partStr l i j @ ''c'') k = Inr x"
      and u': "u' = emit (SetInitialCondition (Part l i j F_c) k x) u"
      by (auto simp: bindE_Inr)
    have before: "extends ?T w u"
      by (rule extends_trans [OF v1 extends_trans [OF extends_emit u(1)]]) simp
    have after: "extends ?T u' w1" by (rule extends_trans [OF u(3) v3])
    have "SetInitialCondition (Part l i j F_c) k x \<in> set ev"
      by (rule extends_mem [OF before after _ _ ev,
            where new = "[SetInitialCondition (Part l i j F_c) k x]"]) (simp_all add: u' emit_def)
    with x one(2) show ?thesis by auto
  next
    case two
    let ?body = "\<lambda>k w'.
               bindE (prev_at d (partStr l i j @ ''c1'') k) (\<lambda>x1.
               bindE (prev_at d (partStr l i j @ ''c2'') k) (\<lambda>x2.
                 Inr (emit (SetInitialCondition (Part l i j F_c2) k x2)
                     (emit (SetInitialCondition (Part l i j F_c1) k x1) w'))))"
    from v(2) N t two(1,2) obtain y1 y2 y where
      loop: "forM [0..<nat n] ?body
             (emit (SetInitialGuess (Part l i j F_cbar) y)
             (emit (SetInitialGuess (Part l i j F_c2bar) y2)
             (emit (SetInitialGuess (Part l i j F_c1bar) y1) v))) = Inr v'"
      unfolding restart_particle_def by (auto simp: bindE_Inr range_num_Inr)
    let ?ve = "emit (SetInitialGuess (Part l i j F_cbar) y)
             (emit (SetInitialGuess (Part l i j F_c2bar) y2)
             (emit (SetInitialGuess (Part l i j F_c1bar) y1) v))"
    have "\<exists>u u'. extends ?T ?ve u \<and> ?body k u = Inr u' \<and> extends ?T u' v'"
      by (rule forM_step [OF _ loop kin]) (auto simp: bindE_Inr intro: extends_emit2)
    then obtain u u' where u: "extends ?T ?ve u" "?body k u = Inr u'" "extends ?T u' v'"
      by blast
    from u(2) obtain x1 x2 where x1: "prev_at d (partStr l i j @ ''c1'') k = Inr x1"
      and x2: "prev_at d (partStr l i j @ ''c2'') k = Inr x2"
      and u': "u' = emit (SetInitialCondition (Part l i j F_c2) k x2)
                     (emit (SetInitialCondition (Part l i j F_c1) k x1) u)"
      by (auto simp: bindE_Inr)
    have "extends ?T v ?ve" by (rule extends_emit3) simp_all
    then have before: "extends ?T w u"
      by (rule extends_trans [OF v1 extends_trans [OF _ u(1)]])
    have after: "extends ?T u' w1" by (rule extends_trans [OF u(3) v3])
    have c: "calls u' = calls u @ [SetInitialCondition (Part l i j F_c1) k x1,
                SetInitialCondition (Part l i j F_c2) k x2]"
      by (simp add: u' emit_def)
    have "SetInitialCondition (Part l i j F_c1) k x1 \<in> set ev"
      by (rule extends_mem [OF before after c _ ev]) simp
    moreover have "SetInitialCondition (Part l i j F_c2) k x2 \<in> set ev"
      by (rule extends_mem [OF before after c _ ev]) simp
    ultimately show ?thesis using x1 x2 two(3) by auto
  qed
qed

lemma restart_lyte_sets:
  assumes lyte: "restart_lyte sim d l v = Inr v'" and nv: "Nvol (ndD_s sim) l = Some nv"
    and i: "i < nat nv" and before: "extends Q w v" and after: "extends R v' w1"
    and ev: "calls w1 = calls w @ ev"
  shows "\<exists>c p. prev_at d (''c_lyte_'' @ l) i = Inr c \<and> prev_at d (''phi_lyte_'' @ l) i = Inr p \<and>
           SetInitialCondition (C_lyte l) i c \<in> set ev \<and> SetInitialGuessAt (Phi_lyte l) i p \<in> set ev"
proof -
  let ?T = "\<lambda>_::call. True"
  let ?body = "\<lambda>i w'.
           bindE (prev_at d (''c_lyte_'' @ l) i) (\<lambda>c.
           bindE (prev_at d (''phi_lyte_'' @ l) i) (\<lambda>p.
             Inr (emit (SetInitialGuessAt (Phi_lyte l) i p)
                 (emit (SetInitialCondition (C_lyte l) i c) w'))))"
  from lyte nv have loop: "forM (py_range nv) ?body v = Inr v'"
    unfolding restart_lyte_def by (auto simp: bindE_Inr getitem_Inr)
  have iin: "i \<in> set (py_range nv)" using i by (simp add: py_range_mem)
  have "\<exists>u u'. extends ?T v u \<and> ?body i u = Inr u' \<and> extends ?T u' v'"
    by (rule forM_step [OF _ loop iin]) (auto simp: bindE_Inr intro: extends_emit2)
  then obtain u u' where u: "extends ?T v u" "?body i u = Inr u'" "extends ?T u' v'"
    by blast
  from u(2) obtain c p where c: "prev_at d (''c_lyte_'' @ l) i = Inr c"
    and p: "prev_at d (''phi_lyte_'' @ l) i = Inr p"
    and u': "u' = emit (SetInitialGuessAt (Phi_lyte l) i p)
                 (emit (SetInitialCondition (C_lyte l) i c) u)"
    by (auto simp: bindE_Inr)
  have b: "extends ?T w u"
    by (rule extends_trans [OF extends_weaken [OF before] u(1)]) simp
  have a: "extends ?T u' w1"
    by (rule extends_trans [OF u(3) extends_weaken [OF after]]) simp
  have cs: "calls u' = calls u @ [SetInitialCondition (C_lyte l) i c,
              SetInitialGuessAt (Phi_lyte l) i p]"
    by (simp add: u' emit_def)
  have "SetInitialCondition (C_lyte l) i c \<in> set ev"
    by (rule extends_mem [OF b a cs _ ev]) simp
  moreover have "SetInitialGuessAt (Phi_lyte l) i p \<in> set ev"
    by (rule extends_mem [OF b a cs _ ev]) simp
  ultimately show ?thesis using c p by blast
qed

lemma restart_sets_separator:
  assumes run: "SetUpVariables_restart sim d w = Inr w1" and sep: "in_separator sim i"
    and ev: "calls w1 = calls w @ ev"
  shows "\<exists>c p. prev_at d ''c_lyte_s'' i = Inr c \<and> prev_at d ''phi_lyte_s'' i = Inr p \<and>
           SetInitialCondition (C_lyte ''s'') i c \<in> set ev \<and>
           SetInitialGuessAt (Phi_lyte ''s'') i p \<in> set ev"
proof -
  let ?Q = "restart_call sim d"
  from sep obtain ns where ns: "Nvol (ndD_s sim) ''s'' = Some ns" "i < nat ns"
    unfolding in_separator_def by (auto split: option.splits)
  from restart_phases [OF run] obtain wa wb wc where
    s2: "restart_lyte sim d ''s'' wa = Inr wb"
    and a: "extends ?Q w wa" and c: "extends ?Q wb wc" and e: "extends ?Q wc w1"
    by blast
  have after: "extends ?Q wb w1" by (rule extends_trans [OF c e])
  from restart_lyte_sets [OF s2 ns a after ev] show ?thesis by simp
qed

lemma restart_sets_lyte:
  assumes run: "SetUpVariables_restart sim d w = Inr w1" and vol: "in_volume sim l i"
    and ev: "calls w1 = calls w @ ev"
  shows "\<exists>c p. prev_at d (''c_lyte_'' @ l) i = Inr c \<and> prev_at d (''phi_lyte_'' @ l) i = Inr p \<and>
           SetInitialCondition (C_lyte l) i c \<in> set ev \<and> SetInitialGuessAt (Phi_lyte l) i p \<in> set ev"
proof -
  let ?Q = "restart_call sim d"
  from vol obtain nv where l: "l \<in> set (trodes (ndD_s sim))"
    and nv: "Nvol (ndD_s sim) l = Some nv" "i < nat nv"
    unfolding in_volume_def by (auto split: option.splits)
  from restart_phases [OF run] obtain wa wb wc where
    s3: "forM (trodes (ndD_s sim)) (restart_lyte sim d) wb = Inr wc"
    and a: "extends ?Q w wa" and b: "extends ?Q wa wb" and e: "extends ?Q wc w1"
    by blast
  have "\<exists>v v'. extends ?Q wb v \<and> restart_lyte sim d l v = Inr v' \<and> extends ?Q v' wc"
    by (rule forM_step [OF _ s3 l]) (rule restart_lyte_extends)
  then obtain v v' where v: "extends ?Q wb v" "restart_lyte sim d l v = Inr v'" "extends ?Q v' wc"
    by blast
  have before: "extends ?Q w v" by (rule extends_trans [OF a extends_trans [OF b v(1)]])
  have after: "extends ?Q v' w1" by (rule extends_trans [OF v(3) e])
  show ?thesis by (rule restart_lyte_sets [OF v(2) nv before after ev])
qed

lemma restart_sets_applied:
  assumes run: "SetUpVariables_restart sim d w = Inr w1" and ev: "calls w1 = calls w @ ev"
  shows "\<exists>p. prev_scalar d ''phi_applied'' = Inr p \<and> SetInitialGuess Phi_applied p \<in> set ev"
proof -
  let ?Q = "restart_call sim d"
  from restart_phases [OF run] obtain wa wb wc p where
    p: "prev_scalar d ''phi_applied'' = Inr p"
    and s4: "w1 = emit (SetInitialGuess Phi_applied p) wc"
    and a: "extends ?Q w wa" and b: "extends ?Q wa wb" and c: "extends ?Q wb wc"
    by blast
  have before: "extends ?Q w wc" by (rule extends_trans [OF a extends_trans [OF b c]])
  have "SetInitialGuess Phi_applied p \<in> set ev"
    by (rule extends_mem [OF before extends_refl [of ?Q w1] _ _ ev,
          where new = "[SetInitialGuess Phi_applied p]"]) (simp_all add: s4 emit_def)
  with p show ?thesis by blast
qed


text \<open>
  C4. In restart mode, whenever \<open>SetUpVariables\<close> returns normally, the calls it has made
  are calls of restart mode followed by the assignment of \<open>dummyVar\<close>, and no number is
  drawn from the random stream. Every call carries the last time sample that the
  checkpoint holds under the key of its quantity, and every quantity is set: the applied
  potential; the filling fraction of every region; for every volume of a region the
  reaction rate, the bulk potential and the electrolyte concentration and potential; for
  every volume of the separator the electrolyte concentration and potential; for every
  particle of the domain each average its kind owns and each point of each profile its
  kind owns.
\<close>

theorem restart_values_from_checkpoint:
  assumes "prevDir (ndD_s sim) \<noteq> ''false''" and "dataPrev sim = Some dPrev"
    and "SetUpVariables sim w = Inr w'"
  shows "rand_src w' = rand_src w \<and>
         (\<exists>ev. calls w' = calls w @ ev @ [AssignValue DummyVar 0] \<and>
            list_all (restart_call sim dPrev) ev \<and>
            (\<exists>p. prev_scalar dPrev ''phi_applied'' = Inr p \<and>
                 SetInitialGuess Phi_applied p \<in> set ev) \<and>
            (\<forall>l\<in>set (trodes (ndD_s sim)).
               \<exists>f. prev_scalar dPrev (''ffrac_'' @ l) = Inr f \<and>
                   SetInitialGuess (Ffrac l) f \<in> set ev) \<and>
            (\<forall>l i. in_volume sim l i \<longrightarrow>
               (\<exists>r p. prev_at dPrev (''R_Vp_'' @ l) i = Inr r \<and>
                      prev_at dPrev (''phi_bulk_'' @ l) i = Inr p \<and>
                      SetInitialGuessAt (R_Vp l) i r \<in> set ev \<and>
                      SetInitialGuessAt (Phi_bulk l) i p \<in> set ev) \<and>
               (\<exists>c q. prev_at dPrev (''c_lyte_'' @ l) i = Inr c \<and>
                      prev_at dPrev (''phi_lyte_'' @ l) i = Inr q \<and>
                      SetInitialCondition (C_lyte l) i c \<in> set ev \<and>
                      SetInitialGuessAt (Phi_lyte l) i q \<in> set ev)) \<and>
            (\<forall>i. in_separator sim i \<longrightarrow>
               (\<exists>c q. prev_at dPrev ''c_lyte_s'' i = Inr c \<and>
                      prev_at dPrev ''phi_lyte_s'' i = Inr q \<and>
                      SetInitialCondition (C_lyte ''s'') i c \<in> set ev \<and>
                      SetInitialGuessAt (Phi_lyte ''s'') i q \<in> set ev)) \<and>
            (\<forall>l i j f. in_domain sim l i j \<and> avg_field_ok sim l i j f \<longrightarrow>
               (\<exists>x. prev_scalar dPrev (partStr l i j @ field_name f) = Inr x \<and>
                    SetInitialGuess (Part l i j f) x \<in> set ev)) \<and>
            (\<forall>l i j f k. in_domain sim l i j \<and> point_field_ok sim l i j f k \<longrightarrow>
               (\<exists>x. prev_at dPrev (partStr l i j @ field_name f) k = Inr x \<and>
                    SetInitialCondition (Part l i j f) k x \<in> set ev)))"
proof -
  from assms obtain w1 where w': "w' = emit (AssignValue DummyVar 0) w1"
    and run: "SetUpVariables_restart sim dPrev w = Inr w1"
    unfolding SetUpVariables_Inr by auto
  have rand: "rand_src w' = rand_src w"
    using SetUpVariables_restart_rand [OF run] by (simp add: w')
  from extends_calls [OF SetUpVariables_restart_extends [OF run]] obtain ev where
    ev: "calls w1 = calls w @ ev" and all: "list_all (restart_call sim dPrev) ev"
    by blast
  have c0: "calls w' = calls w @ ev @ [AssignValue DummyVar 0]"
    by (simp add: w' emit_def ev)
  have c1: "\<exists>p. prev_scalar dPrev ''phi_applied'' = Inr p \<and>
                 SetInitialGuess Phi_applied p \<in> set ev"
    by (rule restart_sets_applied [OF run ev])
  have c2: "\<forall>l\<in>set (trodes (ndD_s sim)).
               \<exists>f. prev_scalar dPrev (''ffrac_'' @ l) = Inr f \<and>
                   SetInitialGuess (Ffrac l) f \<in> set ev"
    using restart_sets_ffrac [OF run _ ev] by blast
  have c3: "\<forall>l i. in_volume sim l i \<longrightarrow>
               (\<exists>r p. prev_at dPrev (''R_Vp_'' @ l) i = Inr r \<and>
                      prev_at dPrev (''phi_bulk_'' @ l) i = Inr p \<and>
                      SetInitialGuessAt (R_Vp l) i r \<in> set ev \<and>
                      SetInitialGuessAt (Phi_bulk l) i p \<in> set ev) \<and>
               (\<exists>c q. prev_at dPrev (''c_lyte_'' @ l) i = Inr c \<and>
                      prev_at dPrev (''phi_lyte_'' @ l) i = Inr q \<and>
                      SetInitialCondition (C_lyte l) i c \<in> set ev \<and>
                      SetInitialGuessAt (Phi_lyte l) i q \<in> set ev)"
  proof (intro allI impI conjI)
    fix l i assume vol: "in_volume sim l i"
    show "\<exists>r p. prev_at dPrev (''R_Vp_'' @ l) i = Inr r \<and>
                      prev_at dPrev (''phi_bulk_'' @ l) i = Inr p \<and>
                      SetInitialGuessAt (R_Vp l) i r \<in> set ev \<and>
                      SetInitialGuessAt (Phi_bulk l) i p \<in> set ev"
      by (rule restart_sets_volume [OF run vol ev])
    show "\<exists>c q. prev_at dPrev (''c_lyte_'' @ l) i = Inr c \<and>
                      prev_at dPrev (''phi_lyte_'' @ l) i = Inr q \<and>
                      SetInitialCondition (C_lyte l) i c \<in> set ev \<and>
                      SetInitialGuessAt (Phi_lyte l) i q \<in> set ev"
      by (rule restart_sets_lyte [OF run vol ev])
  qed
  have c4: "\<forall>i. in_separator sim i \<longrightarrow>
               (\<exists>c q. prev_at dPrev ''c_lyte_s'' i = Inr c \<and>
                      prev_at dPrev ''phi_lyte_s'' i = Inr q \<and>
                      SetInitialCondition (C_lyte ''s'') i c \<in> set ev \<and>
                      SetInitialGuessAt (Phi_lyte ''s'') i q \<in> set ev)"
    using restart_sets_separator [OF run _ ev] by blast
  have c5: "\<forall>l i j f. in_domain sim l i j \<and> avg_field_ok sim l i j f \<longrightarrow>
               (\<exists>x. prev_scalar dPrev (partStr l i j @ field_name f) = Inr x \<and>
                    SetInitialGuess (Part l i j f) x \<in> set ev)"
    using restart_sets_avg [OF run _ _ ev] by blast
  have c6: "\<forall>l i j f k. in_domain sim l i j \<and> point_field_ok sim l i j f k \<longrightarrow>
               (\<exists>x. prev_at dPrev (partStr l i j @ field_name f) k = Inr x \<and>
                    SetInitialCondition (Part l i j f) k x \<in> set ev)"
    using restart_sets_point [OF run _ _ ev] by blast
  show ?thesis
    apply (rule conjI [OF rand])
    apply (rule exI [of _ ev])
    apply (intro conjI)
          apply (rule c0)
         apply (rule all)
        apply (rule c1)
       apply (rule c2)
      apply (rule c3)
     apply (rule c4)
     apply (rule c5)
    apply (rule c6)
    done
qed

lemma ex_none_facts:
  "prevDir (ndD_s ex_sim_none) \<noteq> ''false''" "dataPrev ex_sim_none = Some ex_prev"
  by (simp_all add: ex_sim_none_def ex_cfg_def)

lemma ex_none_lookups:
  "trodes (ndD_s ex_sim_none) = [''c'']"
  "in_volume ex_sim_none ''c'' 0"
  "in_separator ex_sim_none 0"
  "in_domain ex_sim_none ''c'' 0 0"
  "in_domain ex_sim_none ''c'' 0 1"
  "avg_field_ok ex_sim_none ''c'' 0 0 F_cbar"
  "avg_field_ok ex_sim_none ''c'' 0 1 F_c1bar"
  "point_field_ok ex_sim_none ''c'' 0 0 F_c 1"
  "point_field_ok ex_sim_none ''c'' 0 1 F_c2 3"
  by (simp_all add: ex_sim_none_def ex_cfg_def ex_cfg_e_def in_domain_def in_volume_def
      in_separator_def avg_field_ok_def point_field_ok_def kind_of_def eval_defs)

lemma ex_prev_lookups:
  "prev_scalar ex_prev ''phi_applied'' = Inr (17 / 5)"
  "prev_scalar ex_prev (''ffrac_'' @ ''c'') = Inr (3 / 5)"
  "prev_at ex_prev (''R_Vp_'' @ ''c'') 0 = Inr (1 / 100)"
  "prev_at ex_prev (''phi_bulk_'' @ ''c'') 0 = Inr (33 / 10)"
  "prev_at ex_prev (''c_lyte_'' @ ''c'') 0 = Inr (4 / 5)"
  "prev_at ex_prev (''phi_lyte_'' @ ''c'') 0 = Inr (3 / 10)"
  "prev_at ex_prev ''c_lyte_s'' 0 = Inr (9 / 10)"
  "prev_at ex_prev ''phi_lyte_s'' 0 = Inr (1 / 5)"
  "prev_scalar ex_prev (partStr ''c'' 0 0 @ field_name F_cbar) = Inr (61 / 100)"
  "prev_scalar ex_prev (partStr ''c'' 0 1 @ field_name F_c1bar) = Inr (29 / 50)"
  "prev_at ex_prev (partStr ''c'' 0 0 @ field_name F_c) 1 = Inr (31 / 50)"
  "prev_at ex_prev (partStr ''c'' 0 1 @ field_name F_c2) 3 = Inr (63 / 100)"
  by (simp_all add: ex_prev_def eval_defs)

theorem restart_values_from_checkpoint_witness:
  "\<exists>w' ev. SetUpVariables ex_sim_none ex_world = Inr w' \<and> rand_src w' = rand_src ex_world \<and>
     calls w' = calls ex_world @ ev @ [AssignValue DummyVar 0] \<and>
     SetInitialGuess Phi_applied (17 / 5) \<in> set ev \<and>
     SetInitialGuess (Ffrac ''c'') (3 / 5) \<in> set ev \<and>
     SetInitialGuessAt (R_Vp ''c'') 0 (1 / 100) \<in> set ev \<and>
     SetInitialGuessAt (Phi_bulk ''c'') 0 (33 / 10) \<in> set ev \<and>
     SetInitialCondition (C_lyte ''c'') 0 (4 / 5) \<in> set ev \<and>
     SetInitialGuessAt (Phi_lyte ''c'') 0 (3 / 10) \<in> set ev \<and>
     SetInitialCondition (C_lyte ''s'') 0 (9 / 10) \<in> set ev \<and>
     SetInitialGuessAt (Phi_lyte ''s'') 0 (1 / 5) \<in> set ev \<and>
     SetInitialGuess (Part ''c'' 0 0 F_cbar) (61 / 100) \<in> set ev \<and>
     SetInitialGuess (Part ''c'' 0 1 F_c1bar) (29 / 50) \<in> set ev \<and>
     SetInitialCondition (Part ''c'' 0 0 F_c) 1 (31 / 50) \<in> set ev \<and>
     SetInitialCondition (Part ''c'' 0 1 F_c2) 3 (63 / 100) \<in> set ev"
proof -
  obtain w' where w': "SetUpVariables ex_sim_none ex_world = Inr w'"
    using calls_of_Inr [OF ex_restart_calls] by blast
  from restart_values_from_checkpoint [OF ex_none_facts w'] obtain ev where
    rand: "rand_src w' = rand_src ex_world"
    and ev: "calls w' = calls ex_world @ ev @ [AssignValue DummyVar 0]"
    and app: "\<exists>p. prev_scalar ex_prev ''phi_applied'' = Inr p \<and>
                 SetInitialGuess Phi_applied p \<in> set ev"
    and ff: "\<forall>l\<in>set (trodes (ndD_s ex_sim_none)).
               \<exists>f. prev_scalar ex_prev (''ffrac_'' @ l) = Inr f \<and>
                   SetInitialGuess (Ffrac l) f \<in> set ev"
    and vol: "\<forall>l i. in_volume ex_sim_none l i \<longrightarrow>
               (\<exists>r p. prev_at ex_prev (''R_Vp_'' @ l) i = Inr r \<and>
                      prev_at ex_prev (''phi_bulk_'' @ l) i = Inr p \<and>
                      SetInitialGuessAt (R_Vp l) i r \<in> set ev \<and>
                      SetInitialGuessAt (Phi_bulk l) i p \<in> set ev) \<and>
               (\<exists>c q. prev_at ex_prev (''c_lyte_'' @ l) i = Inr c \<and>
                      prev_at ex_prev (''phi_lyte_'' @ l) i = Inr q \<and>
                      SetInitialCondition (C_lyte l) i c \<in> set ev \<and>
                      SetInitialGuessAt (Phi_lyte l) i q \<in> set ev)"
    and sep: "\<forall>i. in_separator ex_sim_none i \<longrightarrow>
               (\<exists>c q. prev_at ex_prev ''c_lyte_s'' i = Inr c \<and>
                      prev_at ex_prev ''phi_lyte_s'' i = Inr q \<and>
                      SetInitialCondition (C_lyte ''s'') i c \<in> set ev \<and>
                      SetInitialGuessAt (Phi_lyte ''s'') i q \<in> set ev)"
    and avg: "\<forall>l i j f. in_domain ex_sim_none l i j \<and> avg_field_ok ex_sim_none l i j f \<longrightarrow>
               (\<exists>x. prev_scalar ex_prev (partStr l i j @ field_name f) = Inr x \<and>
                    SetInitialGuess (Part l i j f) x \<in> set ev)"
    and pt: "\<forall>l i j f k. in_domain ex_sim_none l i j \<and> point_field_ok ex_sim_none l i j f k \<longrightarrow>
               (\<exists>x. prev_at ex_prev (partStr l i j @ field_name f) k = Inr x \<and>
                    SetInitialCondition (Part l i j f) k x \<in> set ev)"
    by blast
  from app have m1: "SetInitialGuess Phi_applied (17 / 5) \<in> set ev"
    by (auto simp only: ex_prev_lookups(1) sum.inject)
  have "''c'' \<in> set (trodes (ndD_s ex_sim_none))" by (simp add: ex_none_lookups(1))
  with ff have m2: "SetInitialGuess (Ffrac ''c'') (3 / 5) \<in> set ev"
    by (auto simp only: ex_prev_lookups(2) sum.inject)
  from vol ex_none_lookups(2) have
    "\<exists>r p. prev_at ex_prev (''R_Vp_'' @ ''c'') 0 = Inr r \<and>
            prev_at ex_prev (''phi_bulk_'' @ ''c'') 0 = Inr p \<and>
            SetInitialGuessAt (R_Vp ''c'') 0 r \<in> set ev \<and>
            SetInitialGuessAt (Phi_bulk ''c'') 0 p \<in> set ev"
    "\<exists>c q. prev_at ex_prev (''c_lyte_'' @ ''c'') 0 = Inr c \<and>
            prev_at ex_prev (''phi_lyte_'' @ ''c'') 0 = Inr q \<and>
            SetInitialCondition (C_lyte ''c'') 0 c \<in> set ev \<and>
            SetInitialGuessAt (Phi_lyte ''c'') 0 q \<in> set ev"
    by blast+
  then have m3: "SetInitialGuessAt (R_Vp ''c'') 0 (1 / 100) \<in> set ev"
    "SetInitialGuessAt (Phi_bulk ''c'') 0 (33 / 10) \<in> set ev"
    "SetInitialCondition (C_lyte ''c'') 0 (4 / 5) \<in> set ev"
    "SetInitialGuessAt (Phi_lyte ''c'') 0 (3 / 10) \<in> set ev"
    by (auto simp only: ex_prev_lookups(3,4,5,6) sum.inject)
  from sep ex_none_lookups(3) have
    "\<exists>c q. prev_at ex_prev ''c_lyte_s'' 0 = Inr c \<and>
            prev_at ex_prev ''phi_lyte_s'' 0 = Inr q \<and>
            SetInitialCondition (C_lyte ''s'') 0 c \<in> set ev \<and>
            SetInitialGuessAt (Phi_lyte ''s'') 0 q \<in> set ev"
    by blast
  then have m4: "SetInitialCondition (C_lyte ''s'') 0 (9 / 10) \<in> set ev"
    "SetInitialGuessAt (Phi_lyte ''s'') 0 (1 / 5) \<in> set ev"
    by (auto simp only: ex_prev_lookups(7,8) sum.inject)
  from avg ex_none_lookups(4,6) have
    "\<exists>x. prev_scalar ex_prev (partStr ''c'' 0 0 @ field_name F_cbar) = Inr x \<and>
         SetInitialGuess (Part ''c'' 0 0 F_cbar) x \<in> set ev"
    by blast
  then have m5: "SetInitialGuess (Part ''c'' 0 0 F_cbar) (61 / 100) \<in> set ev"
    by (auto simp only: ex_prev_lookups(9) sum.inject)
  from avg ex_none_lookups(5,7) have
    "\<exists>x. prev_scalar ex_prev (partStr ''c'' 0 1 @ field_name F_c1bar) = Inr x \<and>
         SetInitialGuess (Part ''c'' 0 1 F_c1bar) x \<in> set ev"
    by blast
  then have m6: "SetInitialGuess (Part ''c'' 0 1 F_c1bar) (29 / 50) \<in> set ev"
    by (auto simp only: ex_prev_lookups(10) sum.inject)
  from pt ex_none_lookups(4,8) have
    "\<exists>x. prev_at ex_prev (partStr ''c'' 0 0 @ field_name F_c) 1 = Inr x \<and>
         SetInitialCondition (Part ''c'' 0 0 F_c) 1 x \<in> set ev"
    by blast
  then have m7: "SetInitialCondition (Part ''c'' 0 0 F_c) 1 (31 / 50) \<in> set ev"
    by (auto simp only: ex_prev_lookups(11) sum.inject)
  from pt ex_none_lookups(5,9) have
    "\<exists>x. prev_at ex_prev (partStr ''c'' 0 1 @ field_name F_c2) 3 = Inr x \<and>
         SetInitialCondition (Part ''c'' 0 1 F_c2) 3 x \<in> set ev"
    by blast
  then have m8: "SetInitialCondition (Part ''c'' 0 1 F_c2) 3 (63 / 100) \<in> set ev"
    by (auto simp only: ex_prev_lookups(12) sum.inject)
  show ?thesis
    apply (rule exI [of _ w'])
    apply (rule exI [of _ ev])
    apply (intro conjI)
    apply (rule w' rand ev m1 m2 m3 m4 m5 m6 m7 m8)+
    done
qed

end
